theory Spec2Isabelle
  imports Complex_Main "HOL-Library.Multiset"
begin

section \<open>The augmentation stream of stream/oa/augment.js\<close>

text \<open>
  The stream takes one lookup (candidate streets and a batch of address records), matches
  every record to its nearest street, classifies each street's numbering scheme and pushes
  rows for the table of addresses: one row per matched record, then interpolated rows at
  the vertices of every street.

  JavaScript numbers are modelled by the values the stream can tell apart. A housenumber is
  an \<^typ>\<open>int\<close> (the parser of lib/analyze answers an integer or NaN; NaN is \<open>None\<close>).
  Distances and coordinates are \<^typ>\<open>real\<close>; the stream adds and compares them and
  rounding plays no part in what is stated below. A projection distance may also be the
  value \<open>Infinity\<close>, which the stream tests for. The value NaN is not modelled for
  distances and coordinates: the collaborators are taken to answer numbers.
\<close>

subsection \<open>Observations and the scheme of a street\<close>

datatype side = L | R

datatype scheme = zigzag | updown

text \<open>One entry of \<open>distances[i]\<close>: \<open>{ housenumber, dist, parity }\<close>. The parity is
  \<open>'L'\<close> or \<open>'R'\<close>, or a falsy value (\<open>None\<close>).\<close>

record observation =
  housenumber :: int
  dist_o :: real
  parity :: "side option"

text \<open>The memo \<open>ord\<close> of lines 121-124: three counters for each side.\<close>

record tally =
  odd_n :: nat
  even_n :: nat
  total :: nat

record ord_memo =
  ord_R :: tally
  ord_L :: tally

definition ord_init :: ord_memo where
  "ord_init = \<lparr>ord_R = \<lparr>odd_n = 0, even_n = 0, total = 0\<rparr>,
               ord_L = \<lparr>odd_n = 0, even_n = 0, total = 0\<rparr>\<rparr>"

text \<open>\<open>ord[cur.parity]\<close>, read and written.\<close>

definition ord_get :: "ord_memo \<Rightarrow> side \<Rightarrow> tally" where
  "ord_get ord p = (case p of R \<Rightarrow> ord_R ord | L \<Rightarrow> ord_L ord)"

definition ord_set :: "ord_memo \<Rightarrow> side \<Rightarrow> tally \<Rightarrow> ord_memo" where
  "ord_set ord p t = (case p of R \<Rightarrow> ord\<lparr>ord_R := t\<rparr> | L \<Rightarrow> ord\<lparr>ord_L := t\<rparr>)"

text \<open>The remainder operator \<open>%\<close> of JavaScript on integers: the sign is the dividend's.\<close>

definition js_rem :: "int \<Rightarrow> int \<Rightarrow> int" where
  "js_rem a b = sgn a * (\<bar>a\<bar> mod \<bar>b\<bar>)"

subsection \<open>Streets, records, rows and the collaborating modules\<close>

type_synonym coord = "real \<times> real"

text \<open>The number \<open>proj.dist\<close>: finite, or \<open>Infinity\<close>; \<open>dist_lt\<close> is JavaScript's \<open><\<close> on
  these values.\<close>

datatype jsdist = Fin real | Infinity

fun dist_lt :: "jsdist \<Rightarrow> jsdist \<Rightarrow> bool" where
  "dist_lt (Fin a) (Fin b) = (a < b)"
| "dist_lt (Fin a) Infinity = True"
| "dist_lt Infinity b = False"

text \<open>What \<open>project.pointOnLine\<close> answers: \<open>{ edge, point, dist }\<close>, where \<open>edge\<close> and
  \<open>point\<close> may be missing.\<close>

record projection =
  edge :: "(coord \<times> coord) option"
  point :: "coord option"
  dist_p :: jsdist

text \<open>A street of \<open>lookup.streets\<close>: \<open>id\<close> and \<open>line\<close> come with the lookup; the stream adds
  \<open>coordinates\<close> and \<open>scheme\<close>.\<close>

record street =
  street_id :: string
  line :: string
  coordinates :: "coord list"
  scheme :: "scheme option"

record item =
  NUMBER :: string
  LON :: string
  LAT :: string

record lookup =
  streets :: "street list"
  batch :: "item list"

text \<open>A row pushed downstream. \<open>$housenumber\<close> is the parsed number for an address row and
  the text \<open>num.toFixed(3)\<close> for a vertex row; \<open>$lon\<close>, \<open>$lat\<close> and \<open>$parity\<close> are undefined
  (\<open>None\<close>) for a vertex row.\<close>

datatype hn_cell = HnNumber int | HnFixed string

record row =
  row_id :: string
  source :: string
  row_housenumber :: hn_cell
  lon :: "string option"
  lat :: "string option"
  row_parity :: "side option"
  proj_lon :: string
  proj_lat :: string

text \<open>
  The modules the stream requires are not part of the sources at hand (lib/project,
  lib/analyze, lib/interpolate, the polyline package), and \<open>parseFloat\<close> and \<open>toFixed\<close>
  belong to the engine. The stream is modelled over any choice of them: they are the
  fields of an environment. So is \<open>exponent_digit\<close>: the first digit of the text of a number
  that the engine prints in exponent notation, which it does from \<open>1e21\<close> on (\<open>1e21\<close>
  prints as \<open>1e+21\<close>); which digit that is lies with the engine's printing of the
  shortest digits that give the number back.
\<close>

record env =
  polyline_toGeoJSON :: "string \<Rightarrow> nat \<Rightarrow> coord list"
  project_dedupe :: "coord list \<Rightarrow> coord list"
  project_pointOnLine :: "coord list \<Rightarrow> coord \<Rightarrow> projection option"
  project_parity :: "projection \<Rightarrow> coord \<Rightarrow> side option"
  project_lineDistance :: "coord list \<Rightarrow> real"
  project_sliceLineAtProjection :: "coord list \<Rightarrow> projection \<Rightarrow> coord list"
  analyze_housenumber :: "string \<Rightarrow> int option"
  lib_interpolate :: "observation list \<Rightarrow> real \<Rightarrow> real option"
  parseFloat :: "string \<Rightarrow> real"
  toFixed :: "real \<Rightarrow> nat \<Rightarrow> string"
  exponent_digit :: "int \<Rightarrow> int"

text \<open>What \<open>console.error\<close> is called with: one value for each place that logs (lines 38,
  53-55 and 69-71; the three calls of the last two places are one value).\<close>

datatype diagnostic =
    CouldNotParse string
  | UnableToProject street coord
  | UnableToFindNearest "street list" item

text \<open>Reading a property of \<open>undefined\<close> throws.\<close>

datatype js_error = TypeError

text \<open>What the stream changes while it runs: the array \<open>distances\<close>, the rows pushed so far
  and the lines logged so far.\<close>

record state =
  distances :: "observation list list"
  pushed :: "row list"
  console :: "diagnostic list"

text \<open>The variable \<open>nearest\<close> of line 46.\<close>

record nearest =
  nearest_projection :: projection
  nearest_street :: "street option"
  nearest_index :: "nat option"

subsection \<open>Decoding and the pass over the batch\<close>

definition PRECISION :: nat where
  "PRECISION = 6"

text \<open>Line 26.\<close>

definition decode_street :: "env \<Rightarrow> street \<Rightarrow> street" where
  "decode_street env street =
     street\<lparr>coordinates := project_dedupe env (polyline_toGeoJSON env (line street) PRECISION)\<rparr>"

definition nearest_init :: nearest where
  "nearest_init = \<lparr>nearest_projection = \<lparr>edge = None, point = None, dist_p = Infinity\<rparr>,
                   nearest_street = None, nearest_index = None\<rparr>"

text \<open>The test of line 52, negated: \<open>proj\<close>, \<open>proj.edge\<close> and \<open>proj.point\<close> are there and
  \<open>proj.dist\<close> is not \<open>Infinity\<close>.\<close>

definition valid_projection :: "projection option \<Rightarrow> bool" where
  "valid_projection proj =
     (case proj of
        None \<Rightarrow> False
      | Some pr \<Rightarrow> \<not> (edge pr = None \<or> point pr = None \<or> dist_p pr = Infinity))"

text \<open>The callback of the inner \<open>lookup.streets.forEach\<close>, lines 48-65, on the variable
  \<open>nearest\<close> and the console.\<close>

fun nearest_step :: "env \<Rightarrow> coord \<Rightarrow> nearest \<times> diagnostic list \<Rightarrow> nat \<times> street
    \<Rightarrow> nearest \<times> diagnostic list" where
  "nearest_step env pt (nearest, con) (i, street) =
     (let proj = project_pointOnLine env (coordinates street) pt
      in if \<not> valid_projection proj then (nearest, con @ [UnableToProject street pt])
         else (case proj of
                 None \<Rightarrow> (nearest, con)
               | Some pr \<Rightarrow>
                   if dist_lt (dist_p pr) (dist_p (nearest_projection nearest))
                   then (\<lparr>nearest_projection = pr, nearest_street = Some street,
                          nearest_index = Some i\<rparr>, con)
                   else (nearest, con)))"

definition find_nearest :: "env \<Rightarrow> street list \<Rightarrow> coord \<Rightarrow> diagnostic list
    \<Rightarrow> nearest \<times> diagnostic list" where
  "find_nearest env strs pt con = foldl (nearest_step env pt) (nearest_init, con) (enumerate 0 strs)"

text \<open>The object of lines 83-92.\<close>

definition oa_row :: "env \<Rightarrow> street \<Rightarrow> int \<Rightarrow> coord \<Rightarrow> side option \<Rightarrow> coord \<Rightarrow> row" where
  "oa_row env street hn pt par pp =
     \<lparr>row_id = street_id street,
      source = ''OA'',
      row_housenumber = HnNumber hn,
      lon = Some (toFixed env (fst pt) 7),
      lat = Some (toFixed env (snd pt) 7),
      row_parity = par,
      proj_lon = toFixed env (fst pp) 7,
      proj_lat = toFixed env (snd pp) 7\<rparr>"

text \<open>
  The callback of \<open>lookup.batch.forEach\<close>, lines 31-94. Where the JavaScript would read a
  property of \<open>undefined\<close> (\<open>nearest.index\<close> or \<open>nearest.projection.point\<close> missing,
  \<open>distances[nearest.index]\<close> out of range) the model answers \<open>TypeError\<close>.
\<close>

definition process_item :: "env \<Rightarrow> street list \<Rightarrow> state \<Rightarrow> item \<Rightarrow> js_error + state" where
  "process_item env strs st it =
     (case analyze_housenumber env (NUMBER it) of
        None \<Rightarrow> Inr (st\<lparr>console := console st @ [CouldNotParse (NUMBER it)]\<rparr>)
      | Some hn \<Rightarrow>
          let pt = (parseFloat env (LON it), parseFloat env (LAT it));
              found = find_nearest env strs pt (console st);
              near = fst found;
              con = snd found
          in if nearest_street near = None \<or> dist_p (nearest_projection near) = Infinity
             then Inr (st\<lparr>console := con @ [UnableToFindNearest strs it]\<rparr>)
             else
               (case (nearest_street near, nearest_index near, point (nearest_projection near)) of
                  (Some street, Some i, Some pp) \<Rightarrow>
                    let par = project_parity env (nearest_projection near) pt;
                        d = project_lineDistance env
                              (project_sliceLineAtProjection env (coordinates street)
                                 (nearest_projection near))
                    in if i < length (distances st)
                       then Inr (st\<lparr>distances := (distances st)
                                      [i := distances st ! i
                                            @ [\<lparr>housenumber = hn, dist_o = d, parity = par\<rparr>]],
                                    pushed := pushed st @ [oa_row env street hn pt par pp],
                                    console := con\<rparr>)
                       else Inl TypeError
                | _ \<Rightarrow> Inl TypeError))"

fun batch_forEach :: "env \<Rightarrow> street list \<Rightarrow> state \<Rightarrow> item list \<Rightarrow> js_error + state" where
  "batch_forEach env strs st [] = Inr st"
| "batch_forEach env strs st (it # its) =
     (case process_item env strs st it of
        Inl e \<Rightarrow> Inl e
      | Inr st' \<Rightarrow> batch_forEach env strs st' its)"

subsection \<open>Sorting, classification and the walk over the vertices\<close>

text \<open>The comparator of lines 100-102. It never answers 0.\<close>

type_synonym comparator = "observation \<Rightarrow> observation \<Rightarrow> int"

definition compare_dist :: comparator where
  "compare_dist a b = (if dist_o a > dist_o b then 1 else - 1)"

text \<open>
  \<open>Array.prototype.sort\<close> with a comparator, as V8 sorts (since its version 7.0, Node.js 11):
  whenever it compares two elements it calls the comparator with the one that came later
  in the array first, and puts that one ahead when the answer is negative. The model is the
  insertion sort that asks in this order: the incoming element goes ahead of the first
  element that it is ranked before. With the comparator of the stream this is the list in
  the order of the distances, observations at the same distance latest first
  (\<open>sort_ahead_compare_dist\<close>); with a comparator that answers 0 for a tie it is the stable
  sort (\<open>sort_ahead_three_way\<close>).
\<close>

fun place_ahead :: "comparator \<Rightarrow> observation \<Rightarrow> observation list \<Rightarrow> observation list" where
  "place_ahead cmp x [] = [x]"
| "place_ahead cmp x (y # ys) = (if cmp x y < 0 then x # y # ys else y # place_ahead cmp x ys)"

definition sort_ahead :: "comparator \<Rightarrow> observation list \<Rightarrow> observation list" where
  "sort_ahead cmp xs = foldl (\<lambda>acc x. place_ahead cmp x acc) [] xs"

text \<open>Lines 99-103: every bucket is sorted with the comparator.\<close>

definition sort_distances :: "observation list list \<Rightarrow> observation list list" where
  "sort_distances ds = map (sort_ahead compare_dist) ds"

text \<open>
  \<open>parseInt(n, 10)\<close> of a number reads the integer at the start of the number's text. A
  number that is an integer of magnitude below \<open>1e21\<close> prints in plain digits and reads back
  as itself. From \<open>1e21\<close> on the text is in exponent notation, and what is read is its first
  digit, with the sign: \<open>parseInt(1e21, 10)\<close> is 1.
\<close>

definition parseInt10 :: "env \<Rightarrow> int \<Rightarrow> int" where
  "parseInt10 env n =
     (if \<bar>n\<bar> < 10 ^ 21 then n else sgn n * exponent_digit env \<bar>n\<bar>)"

text \<open>
  The callback of \<open>d.forEach\<close>, lines 127-134. An observation counts when both
  \<open>cur.parity\<close> and \<open>cur.housenumber\<close> are truthy: the parity is present and the number is
  not 0. The variable \<open>isEven\<close> holds \<open>parseInt(cur.housenumber, 10) % 2\<close>, so it is truthy
  for an odd number.
\<close>

definition enumerate_parity :: "env \<Rightarrow> ord_memo \<Rightarrow> observation \<Rightarrow> ord_memo" where
  "enumerate_parity env ord cur =
     (case parity cur of
        None \<Rightarrow> ord
      | Some p \<Rightarrow>
          if housenumber cur = 0 then ord
          else
            let isEven = js_rem (parseInt10 env (housenumber cur)) 2;
                ord1 = (if isEven \<noteq> 0
                        then ord_set ord p ((ord_get ord p)\<lparr>even_n := even_n (ord_get ord p) + 1\<rparr>)
                        else ord_set ord p ((ord_get ord p)\<lparr>odd_n := odd_n (ord_get ord p) + 1\<rparr>))
            in ord_set ord1 p ((ord_get ord1 p)\<lparr>total := total (ord_get ord1 p) + 1\<rparr>))"

text \<open>The body of \<open>distances.forEach\<close>, lines 118-142, for one street: the scheme it assigns.\<close>

definition scheme_of :: "env \<Rightarrow> observation list \<Rightarrow> scheme" where
  "scheme_of env d =
     (let ord = foldl (enumerate_parity env) ord_init d;
          zz1 = (odd_n (ord_R ord) = total (ord_R ord) \<and> even_n (ord_L ord) = total (ord_L ord));
          zz2 = (odd_n (ord_L ord) = total (ord_L ord) \<and> even_n (ord_R ord) = total (ord_R ord))
      in if zz1 \<or> zz2 then zigzag else updown)"

text \<open>An observation the classifier counts on side \<open>p\<close>, and one whose number prints in plain
  digits.\<close>

definition counted :: "side \<Rightarrow> observation \<Rightarrow> bool" where
  "counted p cur \<longleftrightarrow> parity cur = Some p \<and> housenumber cur \<noteq> 0"

definition plain_digits :: "observation \<Rightarrow> bool" where
  "plain_digits cur \<longleftrightarrow> \<bar>housenumber cur\<bar> < 10 ^ 21"

text \<open>Line 141, \<open>lookup.streets[i].scheme = ...\<close>, inside \<open>distances.forEach\<close>.\<close>

fun assign_scheme :: "env \<Rightarrow> js_error + street list \<Rightarrow> nat \<times> observation list
    \<Rightarrow> js_error + street list" where
  "assign_scheme env (Inl e) (i, d) = Inl e"
| "assign_scheme env (Inr strs) (i, d) =
     (if i < length strs then Inr (strs[i := (strs ! i)\<lparr>scheme := Some (scheme_of env d)\<rparr>])
      else Inl TypeError)"

definition assign_schemes :: "env \<Rightarrow> street list \<Rightarrow> observation list list
    \<Rightarrow> js_error + street list" where
  "assign_schemes env strs ds = foldl (assign_scheme env) (Inr strs) (enumerate 0 ds)"

text \<open>\<open>xs.slice(a, b)\<close> for \<open>0 \<le> a\<close>.\<close>

definition slice :: "'a list \<Rightarrow> nat \<Rightarrow> nat \<Rightarrow> 'a list" where
  "slice xs a b = take (b - a) (drop a xs)"

text \<open>The object of lines 189-198.\<close>

definition vertex_row :: "env \<Rightarrow> street \<Rightarrow> coord \<Rightarrow> real \<Rightarrow> row" where
  "vertex_row env street vertex num =
     \<lparr>row_id = street_id street,
      source = ''VERTEX'',
      row_housenumber = HnFixed (toFixed env num 3),
      lon = None,
      lat = None,
      row_parity = None,
      proj_lon = toFixed env (fst vertex) 7,
      proj_lat = toFixed env (snd vertex) 7\<rparr>"

text \<open>The callback of \<open>housenumbers.forEach\<close>, lines 187-199: \<open>!num\<close> holds for \<open>null\<close> and
  for the number 0.\<close>

definition push_vertex :: "env \<Rightarrow> street \<Rightarrow> coord \<Rightarrow> real option \<Rightarrow> row list" where
  "push_vertex env street vertex num =
     (case num of
        None \<Rightarrow> []
      | Some n \<Rightarrow> if n = 0 then [] else [vertex_row env street vertex n])"

text \<open>The array \<open>housenumbers\<close> of lines 165-184.\<close>

definition housenumbers_at :: "env \<Rightarrow> street \<Rightarrow> observation list \<Rightarrow> real \<Rightarrow> real option list" where
  "housenumbers_at env street d vertexDistance =
     (if scheme street = Some zigzag then [lib_interpolate env d vertexDistance]
      else [lib_interpolate env (filter (\<lambda>x. parity x = Some L) d) vertexDistance,
            lib_interpolate env (filter (\<lambda>x. parity x = Some R) d) vertexDistance])"

text \<open>The callback of \<open>street.coordinates.forEach\<close>, lines 153-201, on the variable
  \<open>vertexDistance\<close> and the rows pushed.\<close>

fun vertex_step :: "env \<Rightarrow> street \<Rightarrow> observation list \<Rightarrow> real \<times> row list \<Rightarrow> nat \<times> coord
    \<Rightarrow> real \<times> row list" where
  "vertex_step env street d (vertexDistance, out) (i, vertex) =
     (if 0 = i then (vertexDistance, out)
      else
        let e = slice (coordinates street) (i - 1) (i + 1);
            vertexDistance' = (if length e = 2 then vertexDistance + project_lineDistance env e
                               else vertexDistance)
        in (vertexDistance',
            out @ concat (map (push_vertex env street vertex)
                            (housenumbers_at env street d vertexDistance'))))"

definition walk_street :: "env \<Rightarrow> street \<Rightarrow> observation list \<Rightarrow> row list \<Rightarrow> row list" where
  "walk_street env street d out =
     snd (foldl (vertex_step env street d) (0, out) (enumerate 0 (coordinates street)))"

text \<open>The callback of the outer \<open>lookup.streets.forEach\<close>, lines 145-202; \<open>distances[si]\<close>
  is the bucket of the street.\<close>

fun walk_streets_step :: "env \<Rightarrow> observation list list \<Rightarrow> js_error + row list \<Rightarrow> nat \<times> street
    \<Rightarrow> js_error + row list" where
  "walk_streets_step env ds (Inl e) (si, street) = Inl e"
| "walk_streets_step env ds (Inr out) (si, street) =
     (if si < length ds then Inr (walk_street env street (ds ! si) out) else Inl TypeError)"

definition walk_streets :: "env \<Rightarrow> street list \<Rightarrow> observation list list \<Rightarrow> row list
    \<Rightarrow> js_error + row list" where
  "walk_streets env strs ds out = foldl (walk_streets_step env ds) (Inr out) (enumerate 0 strs)"

text \<open>The stream's function, lines 18-205: the streets with their schemes and the final
  state, or the error thrown.\<close>

definition augment :: "env \<Rightarrow> lookup \<Rightarrow> js_error + street list \<times> state" where
  "augment env lk =
     (let strs = map (decode_street env) (streets lk);
          st0 = \<lparr>distances = replicate (length strs) [], pushed = [], console = []\<rparr>
      in case batch_forEach env strs st0 (batch lk) of
           Inl e \<Rightarrow> Inl e
         | Inr st1 \<Rightarrow>
             let ds = sort_distances (distances st1)
             in (case assign_schemes env strs ds of
                   Inl e \<Rightarrow> Inl e
                 | Inr strs' \<Rightarrow>
                     (case walk_streets env strs' ds (pushed st1) of
                        Inl e \<Rightarrow> Inl e
                      | Inr out \<Rightarrow> Inr (strs', st1\<lparr>distances := ds, pushed := out\<rparr>))))"

text \<open>What a run leaves: the rows pushed, the buckets, the lines logged and the streets.\<close>

definition rows_of :: "js_error + street list \<times> state \<Rightarrow> row list" where
  "rows_of res = (case res of Inl e \<Rightarrow> [] | Inr r \<Rightarrow> pushed (snd r))"

definition buckets_of :: "js_error + street list \<times> state \<Rightarrow> observation list list" where
  "buckets_of res = (case res of Inl e \<Rightarrow> [] | Inr r \<Rightarrow> distances (snd r))"

definition console_of :: "js_error + street list \<times> state \<Rightarrow> diagnostic list" where
  "console_of res = (case res of Inl e \<Rightarrow> [] | Inr r \<Rightarrow> console (snd r))"

definition streets_of :: "js_error + street list \<times> state \<Rightarrow> street list" where
  "streets_of res = (case res of Inl e \<Rightarrow> [] | Inr r \<Rightarrow> fst r)"

section \<open>What the passes compute, stated without the loops\<close>

subsection \<open>The nearest street\<close>

text \<open>Street \<open>j\<close> is a candidate for a point when its projection passes the test of line 52;
  a candidate is the smallest when no candidate is nearer and none as near has a lower
  index.\<close>

definition candidate :: "env \<Rightarrow> street list \<Rightarrow> coord \<Rightarrow> nat \<Rightarrow> projection \<Rightarrow> bool" where
  "candidate env strs pt j pj \<longleftrightarrow>
     j < length strs \<and> project_pointOnLine env (coordinates (strs ! j)) pt = Some pj
       \<and> valid_projection (Some pj)"

definition smallest_projection :: "env \<Rightarrow> street list \<Rightarrow> coord \<Rightarrow> nat \<Rightarrow> projection \<Rightarrow> bool" where
  "smallest_projection env strs pt k pr \<longleftrightarrow>
     candidate env strs pt k pr
       \<and> (\<forall>j pj. candidate env strs pt j pj \<longrightarrow>
             \<not> dist_lt (dist_p pj) (dist_p pr) \<and> (dist_p pj = dist_p pr \<longrightarrow> k \<le> j))"

subsection \<open>One record of the batch\<close>

text \<open>What one record contributes, whatever the state: the bucket index, the observation
  and the row of a matched record, or nothing; and the lines it logs.\<close>

definition item_outcome :: "env \<Rightarrow> street list \<Rightarrow> item
    \<Rightarrow> (nat \<times> observation \<times> row) option \<times> diagnostic list" where
  "item_outcome env strs it =
     (case analyze_housenumber env (NUMBER it) of
        None \<Rightarrow> (None, [CouldNotParse (NUMBER it)])
      | Some hn \<Rightarrow>
          let pt = (parseFloat env (LON it), parseFloat env (LAT it));
              found = find_nearest env strs pt []
          in (case (nearest_index (fst found), nearest_street (fst found),
                    point (nearest_projection (fst found))) of
                (Some i, Some street, Some pp) \<Rightarrow>
                  let par = project_parity env (nearest_projection (fst found)) pt
                  in (Some (i,
                        \<lparr>housenumber = hn,
                         dist_o = project_lineDistance env
                                    (project_sliceLineAtProjection env (coordinates street)
                                       (nearest_projection (fst found))),
                         parity = par\<rparr>,
                        oa_row env street hn pt par pp), snd found)
              | _ \<Rightarrow> (None, snd found @ [UnableToFindNearest strs it])))"

definition apply_outcome :: "state \<Rightarrow> (nat \<times> observation \<times> row) option \<times> diagnostic list \<Rightarrow> state" where
  "apply_outcome st oc =
     (case fst oc of
        None \<Rightarrow> st\<lparr>console := console st @ snd oc\<rparr>
      | Some (i, ob, r) \<Rightarrow>
          st\<lparr>distances := (distances st)[i := distances st ! i @ [ob]],
             pushed := pushed st @ [r],
             console := console st @ snd oc\<rparr>)"

definition add_observation :: "observation list list \<Rightarrow> nat \<times> observation \<times> row
    \<Rightarrow> observation list list" where
  "add_observation ds m = (case m of (i, ob, r) \<Rightarrow> ds[i := ds ! i @ [ob]])"

text \<open>The row of a record, if it has one.\<close>

definition observed_row :: "env \<Rightarrow> street list \<Rightarrow> item \<Rightarrow> row option" where
  "observed_row env strs it = map_option (\<lambda>(i, ob, r). r) (fst (item_outcome env strs it))"

subsection \<open>The rows of a vertex\<close>

text \<open>The value of \<open>vertexDistance\<close> once vertex \<open>i\<close> has been visited.\<close>

fun vertex_distance :: "env \<Rightarrow> coord list \<Rightarrow> nat \<Rightarrow> real" where
  "vertex_distance env cs 0 = 0"
| "vertex_distance env cs (Suc i) =
     (let e = slice cs i (i + 2)
      in if length e = 2 then vertex_distance env cs i + project_lineDistance env e
         else vertex_distance env cs i)"

definition rows_at :: "env \<Rightarrow> street \<Rightarrow> observation list \<Rightarrow> nat \<Rightarrow> row list" where
  "rows_at env street d i =
     concat (map (push_vertex env street (coordinates street ! i))
               (housenumbers_at env street d (vertex_distance env (coordinates street) i)))"

definition vertex_rows :: "env \<Rightarrow> street \<Rightarrow> observation list \<Rightarrow> row list" where
  "vertex_rows env street d =
     concat (map (rows_at env street d) [1..<length (coordinates street)])"

definition all_vertex_rows :: "env \<Rightarrow> street list \<Rightarrow> observation list list \<Rightarrow> row list" where
  "all_vertex_rows env strs ds =
     concat (map (\<lambda>si. vertex_rows env (strs ! si) (ds ! si)) [0..<length strs])"

subsection \<open>The stages of a run\<close>

definition with_scheme :: "env \<Rightarrow> street \<Rightarrow> observation list \<Rightarrow> street" where
  "with_scheme env street d = street\<lparr>scheme := Some (scheme_of env d)\<rparr>"

text \<open>The state the pass over the batch starts from, lines 22-28.\<close>

definition initial_state :: "lookup \<Rightarrow> state" where
  "initial_state lk = \<lparr>distances = replicate (length (streets lk)) [], pushed = [], console = []\<rparr>"

definition decoded :: "env \<Rightarrow> lookup \<Rightarrow> street list" where
  "decoded env lk = map (decode_street env) (streets lk)"

definition after_batch :: "env \<Rightarrow> lookup \<Rightarrow> state" where
  "after_batch env lk =
     foldl apply_outcome
       \<lparr>distances = replicate (length (streets lk)) [], pushed = [], console = []\<rparr>
       (map (item_outcome env (decoded env lk)) (batch lk))"

definition sorted_buckets :: "env \<Rightarrow> lookup \<Rightarrow> observation list list" where
  "sorted_buckets env lk = sort_distances (distances (after_batch env lk))"

definition classified :: "env \<Rightarrow> lookup \<Rightarrow> street list" where
  "classified env lk = map2 (with_scheme env) (decoded env lk) (sorted_buckets env lk)"

subsection \<open>The rule for the scheme\<close>

text \<open>
  The rule as the specification words it (section 4.4), on the observations that have a
  parity and a housenumber other than 0: all on the right odd and all on the left even, or
  all on the left odd and all on the right even, odd and even being \<open>housenumber mod 2\<close>.
\<close>

definition zigzag_rule :: "observation list \<Rightarrow> bool" where
  "zigzag_rule d \<longleftrightarrow>
     ((\<forall>cur\<in>set d. parity cur = Some R \<and> housenumber cur \<noteq> 0 \<longrightarrow> housenumber cur mod 2 = 1)
        \<and> (\<forall>cur\<in>set d. parity cur = Some L \<and> housenumber cur \<noteq> 0 \<longrightarrow> housenumber cur mod 2 = 0))
     \<or> ((\<forall>cur\<in>set d. parity cur = Some L \<and> housenumber cur \<noteq> 0 \<longrightarrow> housenumber cur mod 2 = 1)
        \<and> (\<forall>cur\<in>set d. parity cur = Some R \<and> housenumber cur \<noteq> 0 \<longrightarrow> housenumber cur mod 2 = 0))"

section \<open>The interpolator\<close>

text \<open>
  lib/interpolate.js, the function the stream calls as
  \<open>interpolate(distances, vertexDistance)\<close>, is not among the sources. It is modelled from
  section 4.5 of the specification.
\<close>

text \<open>Modelled from the spec: lib/interpolate.js is missing; this is the choice of the largest
  observation with \<open>d \<le> q\<close> of section 4.5, one observation at a time (of several at
  the same distance, the last).\<close>

fun pick_lower :: "real \<Rightarrow> observation option \<Rightarrow> observation \<Rightarrow> observation option" where
  "pick_lower q None x = (if dist_o x \<le> q then Some x else None)"
| "pick_lower q (Some b) x = (if dist_o x \<le> q \<and> dist_o b \<le> dist_o x then Some x else Some b)"

text \<open>Modelled from the spec: lib/interpolate.js is missing; this is the choice of the
  smallest observation with \<open>d \<ge> q\<close> of section 4.5, one observation at a time (of several
  at the same distance, the first).\<close>

fun pick_upper :: "real \<Rightarrow> observation option \<Rightarrow> observation \<Rightarrow> observation option" where
  "pick_upper q None x = (if q \<le> dist_o x then Some x else None)"
| "pick_upper q (Some b) x = (if q \<le> dist_o x \<and> dist_o x < dist_o b then Some x else Some b)"

text \<open>Modelled from the spec: lib/interpolate.js is missing; the lower bracketing observation
  of section 4.5 for a track and a query distance, if it exists.\<close>

definition lower_bracket :: "observation list \<Rightarrow> real \<Rightarrow> observation option" where
  "lower_bracket track q = foldl (pick_lower q) None track"

text \<open>Modelled from the spec: lib/interpolate.js is missing; the upper bracketing observation
  of section 4.5 for a track and a query distance, if it exists.\<close>

definition upper_bracket :: "observation list \<Rightarrow> real \<Rightarrow> observation option" where
  "upper_bracket track q = foldl (pick_upper q) None track"

text \<open>Modelled from the spec: lib/interpolate.js is missing; the rules of section 4.5: nothing
  for a track of fewer than two observations; nothing unless both bracketing observations
  exist; the lower housenumber if their distances are equal; otherwise
  \<open>h_lo + (h_hi - h_lo) * (q - d_lo) / (d_hi - d_lo)\<close>.\<close>

definition interpolate :: "observation list \<Rightarrow> real \<Rightarrow> real option" where
  "interpolate track q =
     (if length track < 2 then None
      else (case (lower_bracket track q, upper_bracket track q) of
              (Some lo, Some hi) \<Rightarrow>
                if dist_o lo = dist_o hi then Some (real_of_int (housenumber lo))
                else Some (real_of_int (housenumber lo)
                           + real_of_int (housenumber hi - housenumber lo) * (q - dist_o lo)
                               / (dist_o hi - dist_o lo))
            | _ \<Rightarrow> None))"

text \<open>The bracketing observations, as the rules describe them.\<close>

definition is_lower :: "observation list \<Rightarrow> real \<Rightarrow> observation \<Rightarrow> bool" where
  "is_lower track q lo \<longleftrightarrow>
     lo \<in> set track \<and> dist_o lo \<le> q \<and> (\<forall>x\<in>set track. dist_o x \<le> q \<longrightarrow> dist_o x \<le> dist_o lo)"

definition is_upper :: "observation list \<Rightarrow> real \<Rightarrow> observation \<Rightarrow> bool" where
  "is_upper track q hi \<longleftrightarrow>
     hi \<in> set track \<and> q \<le> dist_o hi \<and> (\<forall>x\<in>set track. q \<le> dist_o x \<longrightarrow> dist_o hi \<le> dist_o x)"

section \<open>Sorting, seen from outside\<close>

text \<open>
  What the sort is to achieve: each observation's distance is at most the next one's.
\<close>

definition ascending :: "observation list \<Rightarrow> bool" where
  "ascending d \<longleftrightarrow> (\<forall>i. Suc i < length d \<longrightarrow> dist_o (d ! i) \<le> dist_o (d ! Suc i))"

text \<open>
  For comparison: a comparator by distance that answers 0 for a tie, and the insertion sort
  that asks the comparator the other way round, with the element already placed first, and
  moves the incoming element past it unless that element is ranked after it. With the
  comparator of the stream this one keeps observations at the same distance in their order
  (\<open>tie_order_is_the_engines\<close>): the comparator leaves their order to the way the engine
  asks.
\<close>

definition three_way :: comparator where
  "three_way a b = (if dist_o a > dist_o b then 1 else if dist_o a < dist_o b then - 1 else 0)"

fun place_behind :: "comparator \<Rightarrow> observation \<Rightarrow> observation list \<Rightarrow> observation list" where
  "place_behind cmp x [] = [x]"
| "place_behind cmp x (y # ys) = (if 0 < cmp y x then x # y # ys else y # place_behind cmp x ys)"

definition sort_behind :: "comparator \<Rightarrow> observation list \<Rightarrow> observation list" where
  "sort_behind cmp xs = foldl (\<lambda>acc x. place_behind cmp x acc) [] xs"

section \<open>An example run\<close>

text \<open>
  A small environment on which the definitions compute: streets are horizontal, a point
  projects vertically onto the line of the first vertex, a length is measured along the
  first axis, and the side is read from the second. The interpolator is the one of the
  specification, and the first digit of a number in exponent notation is taken to be the
  first digit of its integer value (as it is for \<open>1e21\<close>).
\<close>

function demo_first_digit :: "int \<Rightarrow> int" where
  "demo_first_digit n = (if n < 10 then n else demo_first_digit (n div 10))"
  by pat_completeness auto
termination
  by (relation "measure nat") auto

declare demo_first_digit.simps [simp del]

fun demo_length :: "coord list \<Rightarrow> real" where
  "demo_length (a # b # cs) = \<bar>fst b - fst a\<bar> + demo_length (b # cs)"
| "demo_length cs = 0"

definition demo_decimal :: "string \<Rightarrow> real" where
  "demo_decimal s =
     (case map_of [(''1'', 1), (''2'', 2), (''5'', 5), (''15'', 15), (''0.5'', 1 / 2),
                   (''-0.5'', - 1 / 2), (''0.75'', 3 / 4)] s of
        Some x \<Rightarrow> x
      | None \<Rightarrow> 0)"

definition demo_fixed :: "real \<Rightarrow> nat \<Rightarrow> string" where
  "demo_fixed x n =
     (case map_of [(0, ''0''), (1 / 2, ''0.5''), (- 1 / 2, ''-0.5''), (3 / 4, ''0.75''), (1, ''1''),
                   (2, ''2''), (5 / 2, ''2.5''), (5, ''5''), (9, ''9''), (10, ''10''), (15, ''15''),
                   (20, ''20'')] x of
        Some s \<Rightarrow> s
      | None \<Rightarrow> ''?'')"

definition demo_env :: env where
  "demo_env =
     \<lparr>polyline_toGeoJSON = (\<lambda>s p.
        if s = ''a'' then [(0, 0), (0, 0), (10, 0), (20, 0)]
        else if s = ''b'' then [(0, 1), (20, 1)]
        else [(5, 5), (5, 5)]),
      project_dedupe = remdups_adj,
      project_pointOnLine = (\<lambda>cs p.
        case cs of
          a # b # rest \<Rightarrow> Some \<lparr>edge = Some (a, b), point = Some (fst p, snd a),
                                 dist_p = Fin \<bar>snd p - snd a\<bar>\<rparr>
        | _ \<Rightarrow> None),
      project_parity = (\<lambda>pr p.
        case point pr of
          Some pp \<Rightarrow> if snd pp < snd p then Some L else Some R
        | None \<Rightarrow> None),
      project_lineDistance = demo_length,
      project_sliceLineAtProjection = (\<lambda>cs pr.
        case point pr of Some pp \<Rightarrow> [hd cs, pp] | None \<Rightarrow> cs),
      analyze_housenumber = map_of [(''1'', 1), (''4'', 4), (''7'', 7),
                                    (''1000000000000000000000'', 10 ^ 21)],
      lib_interpolate = interpolate,
      parseFloat = demo_decimal,
      toFixed = demo_fixed,
      exponent_digit = demo_first_digit\<rparr>"

definition demo_lookup :: lookup where
  "demo_lookup =
     \<lparr>streets = [\<lparr>street_id = ''S1'', line = ''a'', coordinates = [], scheme = None\<rparr>,
                 \<lparr>street_id = ''S2'', line = ''b'', coordinates = [], scheme = None\<rparr>,
                 \<lparr>street_id = ''S3'', line = ''c'', coordinates = [], scheme = None\<rparr>],
      batch = [\<lparr>NUMBER = ''4'', LON = ''15'', LAT = ''-0.5''\<rparr>,
               \<lparr>NUMBER = ''12B'', LON = ''2'', LAT = ''0.5''\<rparr>,
               \<lparr>NUMBER = ''1'', LON = ''5'', LAT = ''0.5''\<rparr>,
               \<lparr>NUMBER = ''7'', LON = ''2'', LAT = ''0.75''\<rparr>]\<rparr>"

text \<open>A second batch: two records on the left of the first street, none near the
  second.\<close>

definition demo_lookup2 :: lookup where
  "demo_lookup2 =
     \<lparr>streets = [\<lparr>street_id = ''S1'', line = ''a'', coordinates = [], scheme = None\<rparr>,
                 \<lparr>street_id = ''S2'', line = ''b'', coordinates = [], scheme = None\<rparr>,
                 \<lparr>street_id = ''S3'', line = ''c'', coordinates = [], scheme = None\<rparr>],
      batch = [\<lparr>NUMBER = ''4'', LON = ''15'', LAT = ''0.5''\<rparr>,
               \<lparr>NUMBER = ''1'', LON = ''5'', LAT = ''0.5''\<rparr>]\<rparr>"

text \<open>A third batch: the numbers \<open>1e21\<close> and 4 on the right of the first street.\<close>

definition demo_lookup3 :: lookup where
  "demo_lookup3 =
     \<lparr>streets = [\<lparr>street_id = ''S1'', line = ''a'', coordinates = [], scheme = None\<rparr>],
      batch = [\<lparr>NUMBER = ''1000000000000000000000'', LON = ''5'', LAT = ''-0.5''\<rparr>,
               \<lparr>NUMBER = ''4'', LON = ''15'', LAT = ''-0.5''\<rparr>]\<rparr>"

definition demo_streets :: "street list" where
  "demo_streets =
     [\<lparr>street_id = ''S1'', line = ''a'', coordinates = [(0, 0), (10, 0), (20, 0)], scheme = None\<rparr>,
      \<lparr>street_id = ''S2'', line = ''b'', coordinates = [(0, 1), (20, 1)], scheme = None\<rparr>,
      \<lparr>street_id = ''S3'', line = ''c'', coordinates = [(5, 5)], scheme = None\<rparr>]"

definition demo_state :: state where
  "demo_state = \<lparr>distances = [[], [], []], pushed = [], console = []\<rparr>"

definition demo_updown :: street where
  "demo_updown = \<lparr>street_id = ''S4'', line = ''a'', coordinates = [(0, 0), (10, 0), (20, 0)],
                   scheme = Some updown\<rparr>"

definition demo_track :: "observation list" where
  "demo_track =
     [\<lparr>housenumber = 1, dist_o = 5, parity = Some L\<rparr>,
      \<lparr>housenumber = 10, dist_o = 5, parity = Some R\<rparr>,
      \<lparr>housenumber = 3, dist_o = 15, parity = Some L\<rparr>,
      \<lparr>housenumber = 8, dist_o = 15, parity = Some R\<rparr>]"

section \<open>Facts about the classifier\<close>

lemma js_rem_2: "js_rem h 2 \<noteq> 0 \<longleftrightarrow> odd h"
  by (auto simp: js_rem_def sgn_if) presburger+

lemma parseInt10_plain: "\<bar>n\<bar> < 10 ^ 21 \<Longrightarrow> parseInt10 env n = n"
  by (simp add: parseInt10_def)

lemma enumerate_parity_counts:
  assumes "\<forall>cur\<in>set d. parity cur \<noteq> None \<longrightarrow> plain_digits cur"
  shows "even_n (ord_get (foldl (enumerate_parity env) ord d) p) =
           even_n (ord_get ord p) + length (filter (\<lambda>cur. counted p cur \<and> odd (housenumber cur)) d)
         \<and> odd_n (ord_get (foldl (enumerate_parity env) ord d) p) =
           odd_n (ord_get ord p) + length (filter (\<lambda>cur. counted p cur \<and> even (housenumber cur)) d)
         \<and> total (ord_get (foldl (enumerate_parity env) ord d) p) =
           total (ord_get ord p) + length (filter (counted p) d)"
  using assms
proof (induction d arbitrary: ord)
  case Nil
  show ?case by simp
next
  case (Cons cur d)
  have step: "even_n (ord_get (enumerate_parity env ord cur) p)
                = even_n (ord_get ord p) + (if counted p cur \<and> odd (housenumber cur) then 1 else 0)
              \<and> odd_n (ord_get (enumerate_parity env ord cur) p)
                = odd_n (ord_get ord p) + (if counted p cur \<and> even (housenumber cur) then 1 else 0)
              \<and> total (ord_get (enumerate_parity env ord cur) p)
                = total (ord_get ord p) + (if counted p cur then 1 else 0)"
    using Cons.prems
    by (cases p; cases "parity cur")
       (auto simp: enumerate_parity_def Let_def js_rem_2 parseInt10_plain plain_digits_def
             ord_get_def ord_set_def counted_def split: side.splits)
  have "\<forall>c\<in>set d. parity c \<noteq> None \<longrightarrow> plain_digits c"
    using Cons.prems by simp
  from Cons.IH [OF this, of "enumerate_parity env ord cur"] step show ?case
    by simp
qed

lemma length_filter_mono: "(\<And>x. P x \<Longrightarrow> Q x) \<Longrightarrow> length (filter P xs) \<le> length (filter Q xs)"
  by (induction xs) auto

lemma length_filter_eq_iff:
  assumes "\<And>x. P x \<Longrightarrow> Q x"
  shows "length (filter P xs) = length (filter Q xs) \<longleftrightarrow> (\<forall>x\<in>set xs. Q x \<longrightarrow> P x)"
proof (induction xs)
  case Nil
  show ?case by simp
next
  case (Cons x xs)
  have le: "length (filter P xs) \<le> length (filter Q xs)"
    using assms by (rule length_filter_mono)
  show ?case
    using Cons le assms by (cases "Q x"; cases "P x") auto
qed

lemma scheme_of_counts:
  assumes "\<forall>cur\<in>set d. parity cur \<noteq> None \<longrightarrow> plain_digits cur"
  shows "scheme_of env d = zigzag \<longleftrightarrow>
     (length (filter (\<lambda>cur. counted R cur \<and> even (housenumber cur)) d) = length (filter (counted R) d)
        \<and> length (filter (\<lambda>cur. counted L cur \<and> odd (housenumber cur)) d) = length (filter (counted L) d))
     \<or> (length (filter (\<lambda>cur. counted L cur \<and> even (housenumber cur)) d) = length (filter (counted L) d)
        \<and> length (filter (\<lambda>cur. counted R cur \<and> odd (housenumber cur)) d) = length (filter (counted R) d))"
proof -
  have R: "ord_R (foldl (enumerate_parity env) ord_init d) = ord_get (foldl (enumerate_parity env) ord_init d) R"
    and L: "ord_L (foldl (enumerate_parity env) ord_init d) = ord_get (foldl (enumerate_parity env) ord_init d) L"
    by (simp_all add: ord_get_def)
  have z: "odd_n (ord_get ord_init p) = 0" "even_n (ord_get ord_init p) = 0" "total (ord_get ord_init p) = 0" for p
    by (cases p; simp add: ord_get_def ord_init_def)+
  note c = enumerate_parity_counts [OF assms, of env ord_init]
  show ?thesis
    unfolding scheme_of_def Let_def R L using c [of R] c [of L] by (auto simp: z)
qed

lemma scheme_of_rule:
  assumes "\<forall>cur\<in>set d. parity cur \<noteq> None \<longrightarrow> plain_digits cur"
  shows "scheme_of env d = (if zigzag_rule d then zigzag else updown)"
proof -
  have e: "length (filter (\<lambda>cur. counted p cur \<and> even (housenumber cur)) d) = length (filter (counted p) d)
      \<longleftrightarrow> (\<forall>cur\<in>set d. parity cur = Some p \<and> housenumber cur \<noteq> 0 \<longrightarrow> housenumber cur mod 2 = 0)" for p
    by (subst length_filter_eq_iff) (auto simp: counted_def)
  have o: "length (filter (\<lambda>cur. counted p cur \<and> odd (housenumber cur)) d) = length (filter (counted p) d)
      \<longleftrightarrow> (\<forall>cur\<in>set d. parity cur = Some p \<and> housenumber cur \<noteq> 0 \<longrightarrow> housenumber cur mod 2 = 1)" for p
    by (subst length_filter_eq_iff) (auto simp: counted_def odd_iff_mod_2_eq_one)
  have "scheme_of env d = zigzag \<or> scheme_of env d = updown"
    by (cases "scheme_of env d") simp_all
  then show ?thesis
    using scheme_of_counts [OF assms, of env] unfolding e o zigzag_rule_def by (auto split: if_splits)
qed

lemma scheme_of_empty: "scheme_of env [] = zigzag"
  by (simp add: scheme_of_def ord_init_def)

section \<open>Facts about the nearest street\<close>

lemma foldl_enumerate_snoc:
  "foldl f a (enumerate 0 (xs @ [x])) = f (foldl f a (enumerate 0 xs)) (length xs, x)"
  by (simp add: enumerate_append_eq)

lemma candidate_snoc:
  "candidate env (xs @ [x]) pt j pj \<longleftrightarrow>
     candidate env xs pt j pj
       \<or> (j = length xs \<and> project_pointOnLine env (coordinates x) pt = Some pj \<and> valid_projection (Some pj))"
  by (auto simp: candidate_def nth_append less_Suc_eq)

lemma candidate_Fin: "candidate env strs pt j pj \<Longrightarrow> \<exists>d. dist_p pj = Fin d"
  by (cases "dist_p pj") (auto simp: candidate_def valid_projection_def)

lemma find_nearest_cases:
  "(\<exists>k pr. fst (find_nearest env strs pt con) =
              \<lparr>nearest_projection = pr, nearest_street = Some (strs ! k), nearest_index = Some k\<rparr>
            \<and> smallest_projection env strs pt k pr)
   \<or> (fst (find_nearest env strs pt con) = nearest_init \<and> (\<forall>j pj. \<not> candidate env strs pt j pj))"
proof (induction strs rule: rev_induct)
  case Nil
  show ?case by (simp add: find_nearest_def candidate_def)
next
  case (snoc x xs)
  obtain near c where f: "find_nearest env xs pt con = (near, c)"
    by (cases "find_nearest env xs pt con")
  have step: "find_nearest env (xs @ [x]) pt con = nearest_step env pt (near, c) (length xs, x)"
    using f by (simp add: find_nearest_def foldl_enumerate_snoc)
  show ?case
  proof (cases "valid_projection (project_pointOnLine env (coordinates x) pt)")
    case False
    then have same: "fst (find_nearest env (xs @ [x]) pt con) = near"
      by (simp add: step)
    have cand: "candidate env (xs @ [x]) pt j pj \<longleftrightarrow> candidate env xs pt j pj" for j pj
      using False by (auto simp: candidate_snoc)
    from snoc f same cand show ?thesis
      apply (simp add: smallest_projection_def)
      apply (elim disjE exE conjE)
       apply (rule disjI1)
      subgoal for k pr
        apply (rule exI [of _ k], rule exI [of _ pr])
        apply (auto simp: candidate_def nth_append)
        done
      apply simp
      done
  next
    case True
    then obtain px where px: "project_pointOnLine env (coordinates x) pt = Some px"
      by (cases "project_pointOnLine env (coordinates x) pt") (auto simp: valid_projection_def)
    obtain dx where dx: "dist_p px = Fin dx"
      using True px by (cases "dist_p px") (auto simp: valid_projection_def)
    have cx: "candidate env (xs @ [x]) pt (length xs) px"
      using True px by (simp add: candidate_snoc)
    from snoc show ?thesis
    proof (elim disjE exE conjE)
      fix k pr
      assume n: "fst (find_nearest env xs pt con) =
                   \<lparr>nearest_projection = pr, nearest_street = Some (xs ! k), nearest_index = Some k\<rparr>"
        and sm: "smallest_projection env xs pt k pr"
      from sm have ck: "candidate env xs pt k pr" and klt: "k < length xs"
        by (auto simp: smallest_projection_def candidate_def)
      obtain dk where dk: "dist_p pr = Fin dk"
        using candidate_Fin [OF ck] by blast
      show ?thesis
      proof (cases "dx < dk")
        case True
        have "fst (find_nearest env (xs @ [x]) pt con) =
                \<lparr>nearest_projection = px, nearest_street = Some ((xs @ [x]) ! length xs),
                 nearest_index = Some (length xs)\<rparr>"
          using n f px \<open>valid_projection _\<close> True dx dk by (simp add: step)
        moreover have "smallest_projection env (xs @ [x]) pt (length xs) px"
          unfolding smallest_projection_def
        proof (intro conjI allI impI)
          show "candidate env (xs @ [x]) pt (length xs) px" by (rule cx)
        next
          fix j pj assume c: "candidate env (xs @ [x]) pt j pj"
          then consider "candidate env xs pt j pj" | "j = length xs" "pj = px"
            using px by (auto simp: candidate_snoc)
          then show "\<not> dist_lt (dist_p pj) (dist_p px)"
          proof cases
            case 1
            with sm have "\<not> dist_lt (dist_p pj) (dist_p pr)"
              by (simp add: smallest_projection_def)
            moreover obtain dj where "dist_p pj = Fin dj" using candidate_Fin [OF 1] by blast
            ultimately show ?thesis using dk dx True by simp
          next
            case 2
            then show ?thesis using dx by simp
          qed
        next
          fix j pj assume c: "candidate env (xs @ [x]) pt j pj" and e: "dist_p pj = dist_p px"
          then consider "candidate env xs pt j pj" | "j = length xs"
            by (auto simp: candidate_snoc)
          then show "length xs \<le> j"
          proof cases
            case 1
            with sm have "\<not> dist_lt (dist_p pj) (dist_p pr)"
              by (simp add: smallest_projection_def)
            then show ?thesis using e dk dx True by simp
          next
            case 2
            then show ?thesis by simp
          qed
        qed
        ultimately show ?thesis by blast
      next
        case False
        have "fst (find_nearest env (xs @ [x]) pt con) =
                \<lparr>nearest_projection = pr, nearest_street = Some ((xs @ [x]) ! k), nearest_index = Some k\<rparr>"
          using n f px \<open>valid_projection _\<close> False dx dk klt by (simp add: step nth_append)
        moreover have "smallest_projection env (xs @ [x]) pt k pr"
          unfolding smallest_projection_def
        proof (intro conjI allI impI)
          show "candidate env (xs @ [x]) pt k pr" using ck by (simp add: candidate_snoc)
        next
          fix j pj assume c: "candidate env (xs @ [x]) pt j pj"
          then consider "candidate env xs pt j pj" | "j = length xs" "pj = px"
            using px by (auto simp: candidate_snoc)
          then show "\<not> dist_lt (dist_p pj) (dist_p pr)"
          proof cases
            case 1
            with sm show ?thesis by (simp add: smallest_projection_def)
          next
            case 2
            then show ?thesis using dx dk False by simp
          qed
        next
          fix j pj assume c: "candidate env (xs @ [x]) pt j pj" and e: "dist_p pj = dist_p pr"
          then consider "candidate env xs pt j pj" | "j = length xs"
            by (auto simp: candidate_snoc)
          then show "k \<le> j"
          proof cases
            case 1
            with sm e show ?thesis by (simp add: smallest_projection_def)
          next
            case 2
            then show ?thesis using klt by simp
          qed
        qed
        ultimately show ?thesis by blast
      qed
    next
      assume n: "fst (find_nearest env xs pt con) = nearest_init"
        and none: "\<forall>j pj. \<not> candidate env xs pt j pj"
      have "fst (find_nearest env (xs @ [x]) pt con) =
              \<lparr>nearest_projection = px, nearest_street = Some ((xs @ [x]) ! length xs),
               nearest_index = Some (length xs)\<rparr>"
        using n f px \<open>valid_projection _\<close> dx by (simp add: step nearest_init_def)
      moreover have "smallest_projection env (xs @ [x]) pt (length xs) px"
        unfolding smallest_projection_def
        using cx none px dx by (auto simp: candidate_snoc)
      ultimately show ?thesis by blast
    qed
  qed
qed

lemma smallest_projection_unique:
  assumes "smallest_projection env strs pt k pr" and "smallest_projection env strs pt k' pr'"
  shows "k = k' \<and> pr = pr'"
proof -
  from assms have c: "candidate env strs pt k pr" and c': "candidate env strs pt k' pr'"
    by (simp_all add: smallest_projection_def)
  obtain d where d: "dist_p pr = Fin d" using candidate_Fin [OF c] by blast
  obtain d' where d': "dist_p pr' = Fin d'" using candidate_Fin [OF c'] by blast
  from assms(1) c' have a: "\<not> dist_lt (dist_p pr') (dist_p pr)" "dist_p pr' = dist_p pr \<longrightarrow> k \<le> k'"
    by (auto simp: smallest_projection_def)
  from assms(2) c have b: "\<not> dist_lt (dist_p pr) (dist_p pr')" "dist_p pr = dist_p pr' \<longrightarrow> k' \<le> k"
    by (auto simp: smallest_projection_def)
  from a(1) b(1) d d' have "d = d'" by simp
  with a(2) b(2) d d' have "k = k'" by simp
  with c c' show ?thesis by (simp add: candidate_def)
qed

lemma find_nearest_console:
  "find_nearest env strs pt con = (fst (find_nearest env strs pt []), con @ snd (find_nearest env strs pt []))"
proof (induction strs rule: rev_induct)
  case Nil
  show ?case by (simp add: find_nearest_def)
next
  case (snoc x xs)
  obtain near c where f: "find_nearest env xs pt [] = (near, c)"
    by (cases "find_nearest env xs pt []")
  have g: "find_nearest env xs pt con = (near, con @ c)"
    using snoc f by simp
  show ?case
    unfolding find_nearest_def foldl_enumerate_snoc
    unfolding find_nearest_def [symmetric] f g
    by (auto simp: Let_def split: option.splits)
qed

lemma find_nearest_shape:
  "(\<exists>k pr pp d. k < length strs
       \<and> fst (find_nearest env strs pt con) =
           \<lparr>nearest_projection = pr, nearest_street = Some (strs ! k), nearest_index = Some k\<rparr>
       \<and> point pr = Some pp \<and> dist_p pr = Fin d)
   \<or> fst (find_nearest env strs pt con) = nearest_init"
  using find_nearest_cases [of env strs pt con]
  apply (elim disjE exE conjE)
  subgoal for k pr
    apply (rule disjI1)
    apply (cases "dist_p pr"; cases "point pr")
    apply (auto simp: smallest_projection_def candidate_def valid_projection_def)
    done
  apply simp
  done

lemma find_nearest_logs:
  "snd (find_nearest env strs pt con) =
     con @ map (\<lambda>s. UnableToProject s pt)
             (filter (\<lambda>s. \<not> valid_projection (project_pointOnLine env (coordinates s) pt)) strs)"
proof (induction strs rule: rev_induct)
  case Nil
  show ?case by (simp add: find_nearest_def)
next
  case (snoc x xs)
  obtain near c where f: "find_nearest env xs pt con = (near, c)"
    by (cases "find_nearest env xs pt con")
  show ?case
    using snoc unfolding find_nearest_def foldl_enumerate_snoc
    unfolding find_nearest_def [symmetric] f
    by (auto simp: Let_def split: option.splits)
qed

lemma no_candidate_filter:
  assumes "\<And>j pj. \<not> candidate env strs pt j pj"
  shows "filter (\<lambda>s. \<not> valid_projection (project_pointOnLine env (coordinates s) pt)) strs = strs"
proof -
  have "\<not> valid_projection (project_pointOnLine env (coordinates s) pt)" if "s \<in> set strs" for s
  proof
    assume v: "valid_projection (project_pointOnLine env (coordinates s) pt)"
    from that obtain j where j: "j < length strs" "strs ! j = s"
      by (auto simp: in_set_conv_nth)
    from v obtain pj where "project_pointOnLine env (coordinates s) pt = Some pj"
      by (cases "project_pointOnLine env (coordinates s) pt") (auto simp: valid_projection_def)
    with v j have "candidate env strs pt j pj" by (simp add: candidate_def)
    with assms show False by blast
  qed
  then show ?thesis by simp
qed

section \<open>Facts about the pass over the batch\<close>

lemma process_item_outcome:
  assumes "length (distances st) = length strs"
  shows "process_item env strs st it = Inr (apply_outcome st (item_outcome env strs it))"
proof (cases "analyze_housenumber env (NUMBER it)")
  case None
  then show ?thesis
    by (simp add: process_item_def item_outcome_def apply_outcome_def)
next
  case (Some hn)
  define pt where "pt = (parseFloat env (LON it), parseFloat env (LAT it))"
  have con: "find_nearest env strs pt (console st) =
      (fst (find_nearest env strs pt []), console st @ snd (find_nearest env strs pt []))"
    by (rule find_nearest_console)
  from find_nearest_shape [of strs env pt "[]"] show ?thesis
  proof (elim disjE exE conjE)
    fix k pr pp d
    assume "k < length strs"
      and "fst (find_nearest env strs pt []) =
            \<lparr>nearest_projection = pr, nearest_street = Some (strs ! k), nearest_index = Some k\<rparr>"
      and "point pr = Some pp" and "dist_p pr = Fin d"
    then show ?thesis
      using Some assms con
      by (simp add: process_item_def item_outcome_def apply_outcome_def Let_def pt_def [symmetric])
  next
    assume "fst (find_nearest env strs pt []) = nearest_init"
    then show ?thesis
      using Some con
      by (simp add: process_item_def item_outcome_def apply_outcome_def Let_def pt_def [symmetric]
            nearest_init_def)
  qed
qed

lemma process_item_unmatched:
  assumes "analyze_housenumber env (NUMBER it) = Some hn"
    and "\<And>j pj. \<not> candidate env strs (parseFloat env (LON it), parseFloat env (LAT it)) j pj"
  shows "process_item env strs st it =
           Inr (st\<lparr>console := console st
                      @ map (\<lambda>s. UnableToProject s (parseFloat env (LON it), parseFloat env (LAT it))) strs
                      @ [UnableToFindNearest strs it]\<rparr>)"
proof -
  let ?pt = "(parseFloat env (LON it), parseFloat env (LAT it))"
  have n: "fst (find_nearest env strs ?pt (console st)) = nearest_init"
    using find_nearest_cases [of env strs ?pt "console st"] assms(2)
    by (auto simp: smallest_projection_def)
  have l: "snd (find_nearest env strs ?pt (console st)) =
             console st @ map (\<lambda>s. UnableToProject s ?pt) strs"
    by (simp add: find_nearest_logs no_candidate_filter [OF assms(2)])
  show ?thesis
    using assms(1) n l by (simp add: process_item_def Let_def nearest_init_def)
qed

lemma apply_outcome_length:
  "length (distances (apply_outcome st oc)) = length (distances st)"
  by (auto simp: apply_outcome_def split: option.splits)

lemma batch_forEach_outcomes:
  "length (distances st) = length strs \<Longrightarrow>
     batch_forEach env strs st its = Inr (foldl apply_outcome st (map (item_outcome env strs) its))"
proof (induction its arbitrary: st)
  case Nil
  show ?case by simp
next
  case (Cons it its)
  have "length (distances (apply_outcome st (item_outcome env strs it))) = length strs"
    using Cons.prems by (simp add: apply_outcome_length)
  then show ?case
    using Cons by (simp add: process_item_outcome)
qed

lemma foldl_apply_outcome_pushed:
  "pushed (foldl apply_outcome st ocs) = pushed st @ List.map_filter (\<lambda>oc. map_option (\<lambda>(i, ob, r). r) (fst oc)) ocs"
  by (induction ocs arbitrary: st)
     (auto simp: apply_outcome_def List.map_filter_simps split: option.splits)

lemma foldl_apply_outcome_console:
  "console (foldl apply_outcome st ocs) = console st @ concat (map snd ocs)"
  by (induction ocs arbitrary: st)
     (auto simp: apply_outcome_def split: option.splits)

lemma foldl_apply_outcome_length:
  "length (distances (foldl apply_outcome st ocs)) = length (distances st)"
  by (induction ocs arbitrary: st) (auto simp: apply_outcome_length)

lemma foldl_apply_outcome_distances:
  "distances (foldl apply_outcome st ocs) = foldl add_observation (distances st) (List.map_filter fst ocs)"
  by (induction ocs arbitrary: st)
     (auto simp: apply_outcome_def add_observation_def List.map_filter_simps split: option.splits)

lemma map_filter_map: "List.map_filter f (map g xs) = List.map_filter (f \<circ> g) xs"
  by (induction xs) (auto simp: List.map_filter_simps split: option.splits)

lemma map_filter_append: "List.map_filter f (xs @ ys) = List.map_filter f xs @ List.map_filter f ys"
  by (simp add: List.map_filter_def)

lemma map_filter_set: "r \<in> set (List.map_filter f xs) \<Longrightarrow> \<exists>x\<in>set xs. f x = Some r"
  by (auto simp: List.map_filter_def)

lemma batch_forEach_pushed:
  assumes "length (distances st) = length strs"
    and "batch_forEach env strs st its = Inr st'"
  shows "pushed st' = pushed st @ List.map_filter (observed_row env strs) its"
proof -
  have "st' = foldl apply_outcome st (map (item_outcome env strs) its)"
    using assms by (simp add: batch_forEach_outcomes)
  moreover have "observed_row env strs = (\<lambda>x. map_option (\<lambda>(i, ob, r). r) (fst (item_outcome env strs x)))"
    by (rule ext) (simp add: observed_row_def)
  ultimately show ?thesis
    by (simp add: foldl_apply_outcome_pushed map_filter_map comp_def)
qed

lemma item_outcome_unparseable:
  "analyze_housenumber env (NUMBER it) = None \<Longrightarrow>
     item_outcome env strs it = (None, [CouldNotParse (NUMBER it)])"
  by (simp add: item_outcome_def)

lemma observed_row_unparseable:
  "analyze_housenumber env (NUMBER it) = None \<Longrightarrow> observed_row env strs it = None"
  by (simp add: observed_row_def item_outcome_unparseable)

lemma observed_row_source: "observed_row env strs it = Some r \<Longrightarrow> source r = ''OA''"
  by (auto simp: observed_row_def item_outcome_def oa_row_def Let_def split: option.splits)

section \<open>Facts about the walk over the vertices\<close>

lemma enumerate_take_Suc:
  "n < length xs \<Longrightarrow> enumerate 0 (take (Suc n) xs) = enumerate 0 (take n xs) @ [(n, xs ! n)]"
  by (simp add: take_Suc_conv_app_nth enumerate_append_eq)

lemma vertex_step_prefix:
  "n \<le> length (coordinates street) \<Longrightarrow>
     foldl (vertex_step env street d) (0, out) (enumerate 0 (take n (coordinates street))) =
       (vertex_distance env (coordinates street) (n - 1),
        out @ concat (map (rows_at env street d) [1..<n]))"
proof (induction n)
  case 0
  show ?case by simp
next
  case (Suc n)
  then have lt: "n < length (coordinates street)" by simp
  show ?case
  proof (cases n)
    case 0
    then show ?thesis using lt by (cases "coordinates street") simp_all
  next
    case (Suc m)
    have "[1..<Suc n] = [1..<n] @ [n]" using Suc by simp
    then show ?thesis
      using Suc.IH lt Suc
      by (simp add: enumerate_take_Suc rows_at_def Let_def)
  qed
qed

lemma walk_street_rows: "walk_street env street d out = out @ vertex_rows env street d"
  using vertex_step_prefix [of "length (coordinates street)" street env d out]
  by (simp add: walk_street_def vertex_rows_def)

lemma walk_streets_prefix:
  "length ds = length strs \<Longrightarrow> n \<le> length strs \<Longrightarrow>
     foldl (walk_streets_step env ds) (Inr out) (enumerate 0 (take n strs)) =
       Inr (out @ concat (map (\<lambda>si. vertex_rows env (strs ! si) (ds ! si)) [0..<n]))"
proof (induction n)
  case 0
  show ?case by simp
next
  case (Suc n)
  then show ?case by (simp add: enumerate_take_Suc walk_street_rows)
qed

lemma walk_streets_rows:
  "length ds = length strs \<Longrightarrow> walk_streets env strs ds out = Inr (out @ all_vertex_rows env strs ds)"
  using walk_streets_prefix [of ds strs "length strs" env out]
  by (simp add: walk_streets_def all_vertex_rows_def)

lemma push_vertex_source: "r \<in> set (push_vertex env street vertex num) \<Longrightarrow> source r = ''VERTEX''"
  by (auto simp: push_vertex_def vertex_row_def split: option.splits if_splits)

lemma vertex_rows_source: "r \<in> set (vertex_rows env street d) \<Longrightarrow> source r = ''VERTEX''"
  by (auto simp: vertex_rows_def rows_at_def dest: push_vertex_source)

lemma all_vertex_rows_source: "r \<in> set (all_vertex_rows env strs ds) \<Longrightarrow> source r = ''VERTEX''"
  by (auto simp: all_vertex_rows_def dest: vertex_rows_source)

lemma vertex_rows_empty_zigzag:
  assumes "scheme street = Some zigzag" and "\<And>q. lib_interpolate env [] q = None"
  shows "vertex_rows env street [] = []"
  using assms by (simp add: vertex_rows_def rows_at_def housenumbers_at_def push_vertex_def)

section \<open>A run never throws, and what it leaves\<close>

lemma assign_scheme_prefix:
  "length ds = length strs \<Longrightarrow> n \<le> length ds \<Longrightarrow>
     foldl (assign_scheme env) (Inr strs) (enumerate 0 (take n ds)) =
       Inr (map2 (with_scheme env) (take n strs) (take n ds) @ drop n strs)"
proof (induction n)
  case 0
  show ?case by simp
next
  case (Suc n)
  then have lt: "n < length ds" "n < length strs" by simp_all
  have len: "length (map2 (with_scheme env) (take n strs) (take n ds)) = n"
    using lt by simp
  have "(map2 (with_scheme env) (take n strs) (take n ds) @ drop n strs)
          [n := ((map2 (with_scheme env) (take n strs) (take n ds) @ drop n strs) ! n)\<lparr>scheme := Some (scheme_of env (ds ! n))\<rparr>]
        = map2 (with_scheme env) (take (Suc n) strs) (take (Suc n) ds) @ drop (Suc n) strs"
    using lt len
    by (simp add: list_update_append nth_append take_Suc_conv_app_nth with_scheme_def
          Cons_nth_drop_Suc [symmetric])
  then show ?case
    using Suc lt by (simp add: enumerate_take_Suc)
qed

lemma assign_schemes_map2:
  "length ds = length strs \<Longrightarrow> assign_schemes env strs ds = Inr (map2 (with_scheme env) strs ds)"
  using assign_scheme_prefix [of ds strs "length ds" env] by (simp add: assign_schemes_def)

lemma length_sorted_buckets: "length (sorted_buckets env lk) = length (streets lk)"
  by (simp add: sorted_buckets_def sort_distances_def after_batch_def foldl_apply_outcome_length)

lemma length_classified: "length (classified env lk) = length (streets lk)"
  by (simp add: classified_def length_sorted_buckets decoded_def)

lemma classified_nth:
  "si < length (streets lk) \<Longrightarrow>
     classified env lk ! si = with_scheme env (decoded env lk ! si) (sorted_buckets env lk ! si)"
  by (simp add: classified_def length_sorted_buckets decoded_def)

lemma augment_result:
  "augment env lk =
     Inr (classified env lk,
          \<lparr>distances = sorted_buckets env lk,
           pushed = List.map_filter (observed_row env (decoded env lk)) (batch lk)
                      @ all_vertex_rows env (classified env lk) (sorted_buckets env lk),
           console = concat (map (\<lambda>it. snd (item_outcome env (decoded env lk) it)) (batch lk))\<rparr>)"
proof -
  let ?st0 = "\<lparr>distances = replicate (length (decoded env lk)) [], pushed = [], console = []\<rparr>"
  have b: "batch_forEach env (decoded env lk) ?st0 (batch lk) = Inr (after_batch env lk)"
    by (simp add: batch_forEach_outcomes after_batch_def decoded_def)
  have p: "pushed (after_batch env lk) = List.map_filter (observed_row env (decoded env lk)) (batch lk)"
    using batch_forEach_pushed [OF _ b] by simp
  have c: "console (after_batch env lk) = concat (map (\<lambda>it. snd (item_outcome env (decoded env lk) it)) (batch lk))"
    by (simp add: after_batch_def foldl_apply_outcome_console comp_def)
  have a: "assign_schemes env (decoded env lk) (sorted_buckets env lk) = Inr (classified env lk)"
    by (simp add: assign_schemes_map2 length_sorted_buckets decoded_def classified_def)
  have w: "walk_streets env (classified env lk) (sorted_buckets env lk) out
             = Inr (out @ all_vertex_rows env (classified env lk) (sorted_buckets env lk))" for out
    by (simp add: walk_streets_rows length_sorted_buckets length_classified)
  show ?thesis
    unfolding augment_def Let_def decoded_def [symmetric] b
    by (simp add: sorted_buckets_def [symmetric] a w p c)
qed

lemma rows_of_augment:
  "rows_of (augment env lk) =
     List.map_filter (observed_row env (decoded env lk)) (batch lk)
       @ all_vertex_rows env (classified env lk) (sorted_buckets env lk)"
  by (simp add: rows_of_def augment_result)

lemma streets_of_augment: "streets_of (augment env lk) = classified env lk"
  by (simp add: streets_of_def augment_result)

lemma buckets_of_augment: "buckets_of (augment env lk) = sorted_buckets env lk"
  by (simp add: buckets_of_def augment_result)

lemma after_batch_distances:
  "distances (after_batch env lk) =
     foldl add_observation (replicate (length (streets lk)) [])
       (List.map_filter (fst \<circ> item_outcome env (decoded env lk)) (batch lk))"
  unfolding after_batch_def foldl_apply_outcome_distances map_filter_map by simp

lemma after_batch_skip:
  assumes "analyze_housenumber env (NUMBER it) = None"
  shows "distances (after_batch env (lk\<lparr>batch := xs @ it # ys\<rparr>))
           = distances (after_batch env (lk\<lparr>batch := xs @ ys\<rparr>))"
proof -
  have d: "decoded env (lk\<lparr>batch := b\<rparr>) = decoded env lk" for b
    by (simp add: decoded_def)
  have "fst (item_outcome env (decoded env lk) it) = None"
    using assms by (simp add: item_outcome_unparseable)
  then show ?thesis
    unfolding after_batch_distances
    by (simp add: d map_filter_append List.map_filter_simps)
qed

lemma augment_skip:
  assumes "analyze_housenumber env (NUMBER it) = None"
  shows "rows_of (augment env (lk\<lparr>batch := xs @ it # ys\<rparr>)) = rows_of (augment env (lk\<lparr>batch := xs @ ys\<rparr>))"
    and "buckets_of (augment env (lk\<lparr>batch := xs @ it # ys\<rparr>))
           = buckets_of (augment env (lk\<lparr>batch := xs @ ys\<rparr>))"
    and "streets_of (augment env (lk\<lparr>batch := xs @ it # ys\<rparr>))
           = streets_of (augment env (lk\<lparr>batch := xs @ ys\<rparr>))"
proof -
  have d: "decoded env (lk\<lparr>batch := b\<rparr>) = decoded env lk" for b
    by (simp add: decoded_def)
  have s: "sorted_buckets env (lk\<lparr>batch := xs @ it # ys\<rparr>) = sorted_buckets env (lk\<lparr>batch := xs @ ys\<rparr>)"
    by (simp add: sorted_buckets_def after_batch_skip [OF assms])
  have c: "classified env (lk\<lparr>batch := xs @ it # ys\<rparr>) = classified env (lk\<lparr>batch := xs @ ys\<rparr>)"
    by (simp add: classified_def s d)
  show "rows_of (augment env (lk\<lparr>batch := xs @ it # ys\<rparr>)) = rows_of (augment env (lk\<lparr>batch := xs @ ys\<rparr>))"
    by (simp add: rows_of_augment s c d map_filter_append observed_row_unparseable [OF assms])
  show "buckets_of (augment env (lk\<lparr>batch := xs @ it # ys\<rparr>))
           = buckets_of (augment env (lk\<lparr>batch := xs @ ys\<rparr>))"
    by (simp add: buckets_of_augment s)
  show "streets_of (augment env (lk\<lparr>batch := xs @ it # ys\<rparr>))
           = streets_of (augment env (lk\<lparr>batch := xs @ ys\<rparr>))"
    by (simp add: streets_of_augment c)
qed

text \<open>What the run logs, the state the pass over the batch ends in, and the buckets as
  what the batch put in, sorted.\<close>

lemma console_of_augment:
  "console_of (augment env lk) =
     concat (map (\<lambda>it. snd (item_outcome env (decoded env lk) it)) (batch lk))"
  by (simp add: console_of_def augment_result)

lemma batch_forEach_initial:
  "batch_forEach env (decoded env lk) (initial_state lk) (batch lk) = Inr (after_batch env lk)"
  by (simp add: batch_forEach_outcomes after_batch_def decoded_def initial_state_def)

lemma buckets_of_augment_batch:
  "buckets_of (augment env lk) =
     sort_distances (foldl add_observation (replicate (length (streets lk)) [])
       (List.map_filter (fst \<circ> item_outcome env (decoded env lk)) (batch lk)))"
  by (simp add: buckets_of_augment sorted_buckets_def after_batch_distances)

section \<open>Facts about the interpolator\<close>

lemma pick_lower_inv:
  "(case b of None \<Rightarrow> \<forall>x\<in>set seen. \<not> dist_o x \<le> q | Some lo \<Rightarrow> is_lower seen q lo) \<Longrightarrow>
   (case foldl (pick_lower q) b track of
      None \<Rightarrow> \<forall>x\<in>set (seen @ track). \<not> dist_o x \<le> q
    | Some lo \<Rightarrow> is_lower (seen @ track) q lo)"
proof (induction track arbitrary: b seen)
  case Nil
  then show ?case by (cases b) simp_all
next
  case (Cons x track)
  have "case pick_lower q b x of
          None \<Rightarrow> \<forall>y\<in>set (seen @ [x]). \<not> dist_o y \<le> q
        | Some lo \<Rightarrow> is_lower (seen @ [x]) q lo"
    using Cons.prems by (cases b) (auto simp: is_lower_def)
  from Cons.IH [OF this] show ?case by (simp split: option.splits)
qed

lemma pick_upper_inv:
  "(case b of None \<Rightarrow> \<forall>x\<in>set seen. \<not> q \<le> dist_o x | Some hi \<Rightarrow> is_upper seen q hi) \<Longrightarrow>
   (case foldl (pick_upper q) b track of
      None \<Rightarrow> \<forall>x\<in>set (seen @ track). \<not> q \<le> dist_o x
    | Some hi \<Rightarrow> is_upper (seen @ track) q hi)"
proof (induction track arbitrary: b seen)
  case Nil
  then show ?case by (cases b) simp_all
next
  case (Cons x track)
  have "case pick_upper q b x of
          None \<Rightarrow> \<forall>y\<in>set (seen @ [x]). \<not> q \<le> dist_o y
        | Some hi \<Rightarrow> is_upper (seen @ [x]) q hi"
    using Cons.prems by (cases b) (auto simp: is_upper_def)
  from Cons.IH [OF this] show ?case by (simp split: option.splits)
qed

lemma lower_bracket_cases:
  "(lower_bracket track q = None \<and> (\<forall>x\<in>set track. \<not> dist_o x \<le> q))
   \<or> (\<exists>lo. lower_bracket track q = Some lo \<and> is_lower track q lo)"
  using pick_lower_inv [where b = None and seen = "[]" and q = q and track = track]
  by (cases "lower_bracket track q") (auto simp: lower_bracket_def)

lemma upper_bracket_cases:
  "(upper_bracket track q = None \<and> (\<forall>x\<in>set track. \<not> q \<le> dist_o x))
   \<or> (\<exists>hi. upper_bracket track q = Some hi \<and> is_upper track q hi)"
  using pick_upper_inv [where b = None and seen = "[]" and q = q and track = track]
  by (cases "upper_bracket track q") (auto simp: upper_bracket_def)

section \<open>Facts about the comparator and the two sorts\<close>

lemma compare_dist_le: "\<not> 0 < compare_dist a b \<longleftrightarrow> dist_o a \<le> dist_o b"
  by (simp add: compare_dist_def)

lemma compare_dist_neg: "compare_dist a b < 0 \<longleftrightarrow> dist_o a \<le> dist_o b"
  by (simp add: compare_dist_def)

lemma compare_dist_pos: "0 < compare_dist a b \<longleftrightarrow> dist_o b < dist_o a"
  by (simp add: compare_dist_def)

lemma compare_dist_tie:
  "dist_o a = dist_o b \<Longrightarrow> compare_dist a b = - 1 \<and> compare_dist b a = - 1"
  by (simp add: compare_dist_def)

lemma mset_place_ahead: "mset (place_ahead cmp x ys) = add_mset x (mset ys)"
  by (induction ys) auto

lemma mset_place_behind: "mset (place_behind cmp x ys) = add_mset x (mset ys)"
  by (induction ys) auto

lemma set_place_ahead: "set (place_ahead cmp x ys) = insert x (set ys)"
  by (induction ys) auto

lemma set_place_behind: "set (place_behind cmp x ys) = insert x (set ys)"
  by (induction ys) auto

lemma sorted_place_ahead:
  "sorted_wrt (\<lambda>a b. dist_o a \<le> dist_o b) ys \<Longrightarrow>
     sorted_wrt (\<lambda>a b. dist_o a \<le> dist_o b) (place_ahead compare_dist x ys)"
  by (induction ys) (auto simp: compare_dist_neg set_place_ahead)

lemma sorted_place_behind:
  "sorted_wrt (\<lambda>a b. dist_o a \<le> dist_o b) ys \<Longrightarrow>
     sorted_wrt (\<lambda>a b. dist_o a \<le> dist_o b) (place_behind compare_dist x ys)"
  by (induction ys) (auto simp: compare_dist_pos set_place_behind)

lemma foldl_place_ahead:
  "sorted_wrt (\<lambda>a b. dist_o a \<le> dist_o b) acc \<Longrightarrow>
     mset (foldl (\<lambda>acc x. place_ahead compare_dist x acc) acc xs) = mset acc + mset xs
     \<and> sorted_wrt (\<lambda>a b. dist_o a \<le> dist_o b) (foldl (\<lambda>acc x. place_ahead compare_dist x acc) acc xs)"
  by (induction xs arbitrary: acc) (simp_all add: mset_place_ahead sorted_place_ahead)

lemma foldl_place_behind:
  "sorted_wrt (\<lambda>a b. dist_o a \<le> dist_o b) acc \<Longrightarrow>
     mset (foldl (\<lambda>acc x. place_behind compare_dist x acc) acc xs) = mset acc + mset xs
     \<and> sorted_wrt (\<lambda>a b. dist_o a \<le> dist_o b) (foldl (\<lambda>acc x. place_behind compare_dist x acc) acc xs)"
  by (induction xs arbitrary: acc) (simp_all add: mset_place_behind sorted_place_behind)

lemma sorted_wrt_ascending: "sorted_wrt (\<lambda>a b. dist_o a \<le> dist_o b) d \<Longrightarrow> ascending d"
  by (auto simp: ascending_def sorted_wrt_iff_nth_less)

lemma sort_ahead_ascending: "ascending (sort_ahead compare_dist d)"
  using foldl_place_ahead [of "[]" d] by (simp add: sort_ahead_def sorted_wrt_ascending)

lemma sort_ahead_mset: "mset (sort_ahead compare_dist d) = mset d"
  using foldl_place_ahead [of "[]" d] by (simp add: sort_ahead_def)

lemma sort_behind_ascending: "ascending (sort_behind compare_dist d)"
  using foldl_place_behind [of "[]" d] by (simp add: sort_behind_def sorted_wrt_ascending)

lemma sort_behind_mset: "mset (sort_behind compare_dist d) = mset d"
  using foldl_place_behind [of "[]" d] by (simp add: sort_behind_def)

lemma filter_place_ahead:
  "filter (\<lambda>z. dist_o z = k) (place_ahead compare_dist x ys) =
     (if dist_o x = k then [x] else []) @ filter (\<lambda>z. dist_o z = k) ys"
  by (induction ys) (auto simp: compare_dist_def)

lemma filter_foldl_place_ahead:
  "filter (\<lambda>z. dist_o z = k) (foldl (\<lambda>acc x. place_ahead compare_dist x acc) acc xs) =
     rev (filter (\<lambda>z. dist_o z = k) xs) @ filter (\<lambda>z. dist_o z = k) acc"
  by (induction xs arbitrary: acc) (simp_all add: filter_place_ahead)

lemma sort_ahead_compare_dist: "sort_ahead compare_dist xs = sort_key dist_o (rev xs)"
proof (rule properties_for_sort_key [symmetric])
  show "mset (sort_ahead compare_dist xs) = mset (rev xs)"
    by (simp add: sort_ahead_mset)
  show "sorted (map dist_o (sort_ahead compare_dist xs))"
    using foldl_place_ahead [of "[]" xs] by (simp add: sort_ahead_def sorted_map)
  show "filter (\<lambda>x. dist_o k = dist_o x) (sort_ahead compare_dist xs)
          = filter (\<lambda>x. dist_o k = dist_o x) (rev xs)"
    if "k \<in> set (sort_ahead compare_dist xs)" for k
  proof -
    have e: "(\<lambda>x. dist_o k = dist_o x) = (\<lambda>z. dist_o z = dist_o k)"
      by auto
    show ?thesis
      unfolding e by (simp add: sort_ahead_def filter_foldl_place_ahead rev_filter)
  qed
qed

lemma length_sort_distances: "length (sort_distances ds) = length ds"
  by (simp add: sort_distances_def)

lemma place_behind_three_way: "place_behind three_way x ys = place_ahead three_way x ys"
  by (induction ys) (auto simp: three_way_def)

lemma mset_sort_ahead: "mset (foldl (\<lambda>acc x. place_ahead cmp x acc) acc xs) = mset acc + mset xs"
  by (induction xs arbitrary: acc) (simp_all add: mset_place_ahead)

lemma sorted_place_three_way:
  "sorted (map dist_o ys) \<Longrightarrow> sorted (map dist_o (place_ahead three_way x ys))"
  by (induction ys) (auto simp: three_way_def set_place_ahead)

lemma filter_place_three_way:
  "sorted (map dist_o ys) \<Longrightarrow>
     filter (\<lambda>z. dist_o z = k) (place_ahead three_way x ys) =
       filter (\<lambda>z. dist_o z = k) ys @ (if dist_o x = k then [x] else [])"
proof (induction ys)
  case Nil
  show ?case by simp
next
  case (Cons y ys)
  show ?case
  proof (cases "dist_o x < dist_o y")
    case True
    have "filter (\<lambda>z. dist_o z = dist_o x) (y # ys) = []"
      using True Cons.prems by (auto simp: filter_empty_conv)
    then show ?thesis using True by (auto simp: three_way_def)
  next
    case False
    then show ?thesis using Cons by (auto simp: three_way_def)
  qed
qed

lemma foldl_place_three_way:
  "sorted (map dist_o acc) \<Longrightarrow>
     sorted (map dist_o (foldl (\<lambda>acc x. place_ahead three_way x acc) acc xs))
     \<and> filter (\<lambda>z. dist_o z = k) (foldl (\<lambda>acc x. place_ahead three_way x acc) acc xs)
         = filter (\<lambda>z. dist_o z = k) acc @ filter (\<lambda>z. dist_o z = k) xs"
proof (induction xs arbitrary: acc)
  case Nil
  then show ?case by simp
next
  case (Cons x xs)
  have s: "sorted (map dist_o (place_ahead three_way x acc))"
    using Cons.prems by (rule sorted_place_three_way)
  from Cons.IH [OF s] show ?case
    using Cons.prems by (simp add: filter_place_three_way)
qed

lemma sort_ahead_three_way: "sort_ahead three_way xs = sort_key dist_o xs"
proof (rule properties_for_sort_key [symmetric])
  show "mset (sort_ahead three_way xs) = mset xs"
    by (simp add: sort_ahead_def mset_sort_ahead)
  show "sorted (map dist_o (sort_ahead three_way xs))"
    using foldl_place_three_way [of "[]" xs] by (simp add: sort_ahead_def)
  show "filter (\<lambda>x. dist_o k = dist_o x) (sort_ahead three_way xs) = filter (\<lambda>x. dist_o k = dist_o x) xs"
    if "k \<in> set (sort_ahead three_way xs)" for k
  proof -
    have e: "(\<lambda>x. dist_o k = dist_o x) = (\<lambda>z. dist_o z = dist_o k)"
      by auto
    show ?thesis
      unfolding e using foldl_place_three_way [of "[]" xs "dist_o k"] by (simp add: sort_ahead_def)
  qed
qed

lemma sort_behind_three_way: "sort_behind three_way xs = sort_key dist_o xs"
proof -
  have "(\<lambda>acc x. place_behind three_way x acc) = (\<lambda>acc x. place_ahead three_way x acc)"
    by (simp add: place_behind_three_way)
  then have "sort_behind three_way xs = sort_ahead three_way xs"
    by (simp add: sort_behind_def sort_ahead_def)
  then show ?thesis by (simp add: sort_ahead_three_way)
qed

lemma tie_order_is_the_engines:
  assumes "dist_o a = dist_o b"
  shows "sort_ahead compare_dist [a, b] = [b, a]" and "sort_behind compare_dist [a, b] = [a, b]"
  using assms by (simp_all add: sort_ahead_def sort_behind_def compare_dist_def)

section \<open>The example run, computed\<close>

lemma demo_augment:
  "augment demo_env demo_lookup =
     Inr ([\<lparr>street_id = ''S1'', line = ''a'', coordinates = [(0, 0), (10, 0), (20, 0)],
             scheme = Some zigzag\<rparr>,
           \<lparr>street_id = ''S2'', line = ''b'', coordinates = [(0, 1), (20, 1)], scheme = Some zigzag\<rparr>,
           \<lparr>street_id = ''S3'', line = ''c'', coordinates = [(5, 5)], scheme = Some zigzag\<rparr>],
          \<lparr>distances =
             [[\<lparr>housenumber = 1, dist_o = 5, parity = Some L\<rparr>,
               \<lparr>housenumber = 4, dist_o = 15, parity = Some R\<rparr>],
              [\<lparr>housenumber = 7, dist_o = 2, parity = Some R\<rparr>], []],
           pushed =
             [\<lparr>row_id = ''S1'', source = ''OA'', row_housenumber = HnNumber 4, lon = Some ''15'',
                lat = Some ''-0.5'', row_parity = Some R, proj_lon = ''15'', proj_lat = ''0''\<rparr>,
              \<lparr>row_id = ''S1'', source = ''OA'', row_housenumber = HnNumber 1, lon = Some ''5'',
                lat = Some ''0.5'', row_parity = Some L, proj_lon = ''5'', proj_lat = ''0''\<rparr>,
              \<lparr>row_id = ''S2'', source = ''OA'', row_housenumber = HnNumber 7, lon = Some ''2'',
                lat = Some ''0.75'', row_parity = Some R, proj_lon = ''2'', proj_lat = ''1''\<rparr>,
              \<lparr>row_id = ''S1'', source = ''VERTEX'', row_housenumber = HnFixed ''2.5'', lon = None,
                lat = None, row_parity = None, proj_lon = ''10'', proj_lat = ''0''\<rparr>],
           console =
             [UnableToProject \<lparr>street_id = ''S3'', line = ''c'', coordinates = [(5, 5)], scheme = None\<rparr>
                (15, - (1 / 2)),
              CouldNotParse ''12B'',
              UnableToProject \<lparr>street_id = ''S3'', line = ''c'', coordinates = [(5, 5)], scheme = None\<rparr>
                (5, 1 / 2),
              UnableToProject \<lparr>street_id = ''S3'', line = ''c'', coordinates = [(5, 5)], scheme = None\<rparr>
                (2, 3 / 4)]\<rparr>)"
  by code_simp

text \<open>The run on a batch that leaves the second street without an observation, and the
  run on a batch with the number \<open>1e21\<close> (the vertex row of that run carries whatever the
  example's \<open>toFixed\<close> answers outside its table).\<close>

lemma demo_augment2:
  "augment demo_env demo_lookup2 =
     Inr ([\<lparr>street_id = ''S1'', line = ''a'', coordinates = [(0, 0), (10, 0), (20, 0)],
             scheme = Some updown\<rparr>,
           \<lparr>street_id = ''S2'', line = ''b'', coordinates = [(0, 1), (20, 1)], scheme = Some zigzag\<rparr>,
           \<lparr>street_id = ''S3'', line = ''c'', coordinates = [(5, 5)], scheme = Some zigzag\<rparr>],
          \<lparr>distances =
             [[\<lparr>housenumber = 1, dist_o = 5, parity = Some L\<rparr>,
               \<lparr>housenumber = 4, dist_o = 15, parity = Some L\<rparr>],
              [], []],
           pushed =
             [\<lparr>row_id = ''S1'', source = ''OA'', row_housenumber = HnNumber 4, lon = Some ''15'',
                lat = Some ''0.5'', row_parity = Some L, proj_lon = ''15'', proj_lat = ''0''\<rparr>,
              \<lparr>row_id = ''S1'', source = ''OA'', row_housenumber = HnNumber 1, lon = Some ''5'',
                lat = Some ''0.5'', row_parity = Some L, proj_lon = ''5'', proj_lat = ''0''\<rparr>,
              \<lparr>row_id = ''S1'', source = ''VERTEX'', row_housenumber = HnFixed ''2.5'', lon = None,
                lat = None, row_parity = None, proj_lon = ''10'', proj_lat = ''0''\<rparr>],
           console =
             [UnableToProject \<lparr>street_id = ''S3'', line = ''c'', coordinates = [(5, 5)], scheme = None\<rparr>
                (15, 1 / 2),
              UnableToProject \<lparr>street_id = ''S3'', line = ''c'', coordinates = [(5, 5)], scheme = None\<rparr>
                (5, 1 / 2)]\<rparr>)"
  by code_simp

lemma demo_augment3:
  "augment demo_env demo_lookup3 =
     Inr ([\<lparr>street_id = ''S1'', line = ''a'', coordinates = [(0, 0), (10, 0), (20, 0)],
             scheme = Some updown\<rparr>],
          \<lparr>distances =
             [[\<lparr>housenumber = 1000000000000000000000, dist_o = 5, parity = Some R\<rparr>,
               \<lparr>housenumber = 4, dist_o = 15, parity = Some R\<rparr>]],
           pushed =
             [\<lparr>row_id = ''S1'', source = ''OA'', row_housenumber = HnNumber 1000000000000000000000,
                lon = Some ''5'', lat = Some ''-0.5'', row_parity = Some R, proj_lon = ''5'',
                proj_lat = ''0''\<rparr>,
              \<lparr>row_id = ''S1'', source = ''OA'', row_housenumber = HnNumber 4, lon = Some ''15'',
                lat = Some ''-0.5'', row_parity = Some R, proj_lon = ''15'', proj_lat = ''0''\<rparr>,
              \<lparr>row_id = ''S1'', source = ''VERTEX'', row_housenumber = HnFixed ''?'', lon = None,
                lat = None, row_parity = None, proj_lon = ''10'', proj_lat = ''0''\<rparr>],
           console = []\<rparr>)"
  by code_simp

lemma demo_smallest:
  "smallest_projection demo_env demo_streets (2, 3 / 4) 1
     \<lparr>edge = Some ((0, 1), (20, 1)), point = Some (2, 1), dist_p = Fin (1 / 4)\<rparr>"
  unfolding smallest_projection_def candidate_def
  by (auto simp: demo_streets_def demo_env_def valid_projection_def less_Suc_eq numeral_3_eq_3)

lemma demo_no_candidate:
  "\<not> candidate demo_env [demo_streets ! 2] (2, 3 / 4) j pj"
  by (auto simp: candidate_def demo_streets_def demo_env_def valid_projection_def)

section \<open>The claims\<close>

text \<open>
  Claim C1, as the code has it. For a street whose observations with a parity all have a
  housenumber of magnitude below \<open>1e21\<close>, the run assigns to the street (line 141) the scheme
  \<open>zigzag\<close> exactly when, among the observations of its bucket that have a parity and a
  housenumber (other than 0), all on the right are odd and all on the left are even, or all
  on the left are odd and all on the right are even, odd and even being
  \<open>housenumber mod 2\<close>; in every other case it assigns \<open>updown\<close>. The classifier alone does so
  on every such list of observations. The bound is the one below which \<open>parseInt\<close> reads a
  number back as itself: the code takes the parity from \<open>parseInt(housenumber, 10) % 2\<close>.
  (In the code the counter named \<open>even\<close> holds the odd numbers and the counter named \<open>odd\<close>
  the even ones; the test is symmetric in the two, so the scheme is the one stated.)
\<close>

theorem scheme_classifier:
  "(i < length (streets lk)
      \<and> (\<forall>cur\<in>set (buckets_of (augment env lk) ! i).
            parity cur \<noteq> None \<longrightarrow> \<bar>housenumber cur\<bar> < 10 ^ 21)
     \<longrightarrow> scheme (streets_of (augment env lk) ! i)
           = Some (if zigzag_rule (buckets_of (augment env lk) ! i) then zigzag else updown))
   \<and> ((\<forall>cur\<in>set d. parity cur \<noteq> None \<longrightarrow> \<bar>housenumber cur\<bar> < 10 ^ 21)
     \<longrightarrow> scheme_of env d = (if zigzag_rule d then zigzag else updown))"
proof (intro conjI impI)
  assume a: "i < length (streets lk)
      \<and> (\<forall>cur\<in>set (buckets_of (augment env lk) ! i).
            parity cur \<noteq> None \<longrightarrow> \<bar>housenumber cur\<bar> < 10 ^ 21)"
  then have p: "\<forall>cur\<in>set (sorted_buckets env lk ! i). parity cur \<noteq> None \<longrightarrow> plain_digits cur"
    by (simp add: buckets_of_augment plain_digits_def)
  have "scheme (classified env lk ! i) = Some (scheme_of env (sorted_buckets env lk ! i))"
    using a by (simp add: classified_nth with_scheme_def)
  then show "scheme (streets_of (augment env lk) ! i)
           = Some (if zigzag_rule (buckets_of (augment env lk) ! i) then zigzag else updown)"
    using scheme_of_rule [OF p, of env] by (simp add: streets_of_augment buckets_of_augment)
next
  assume "\<forall>cur\<in>set d. parity cur \<noteq> None \<longrightarrow> \<bar>housenumber cur\<bar> < 10 ^ 21"
  then have "\<forall>cur\<in>set d. parity cur \<noteq> None \<longrightarrow> plain_digits cur"
    by (simp add: plain_digits_def)
  then show "scheme_of env d = (if zigzag_rule d then zigzag else updown)"
    by (rule scheme_of_rule)
qed

text \<open>
  C1 on two runs: in the first the first street holds 1 on the left and 4 on the right and
  becomes \<open>zigzag\<close>, in the second it holds 1 and 4 on the left and becomes \<open>updown\<close>.
\<close>

theorem scheme_classifier_witness:
  "buckets_of (augment demo_env demo_lookup) ! 0
     = [\<lparr>housenumber = 1, dist_o = 5, parity = Some L\<rparr>,
        \<lparr>housenumber = 4, dist_o = 15, parity = Some R\<rparr>]
   \<and> scheme (streets_of (augment demo_env demo_lookup) ! 0) = Some zigzag
   \<and> buckets_of (augment demo_env demo_lookup2) ! 0
     = [\<lparr>housenumber = 1, dist_o = 5, parity = Some L\<rparr>,
        \<lparr>housenumber = 4, dist_o = 15, parity = Some L\<rparr>]
   \<and> scheme (streets_of (augment demo_env demo_lookup2) ! 0) = Some updown"
proof -
  have b: "buckets_of (augment demo_env demo_lookup) ! 0
     = [\<lparr>housenumber = 1, dist_o = 5, parity = Some L\<rparr>,
        \<lparr>housenumber = 4, dist_o = 15, parity = Some R\<rparr>]"
    by (simp add: buckets_of_def demo_augment)
  have b2: "buckets_of (augment demo_env demo_lookup2) ! 0
     = [\<lparr>housenumber = 1, dist_o = 5, parity = Some L\<rparr>,
        \<lparr>housenumber = 4, dist_o = 15, parity = Some L\<rparr>]"
    by (simp add: buckets_of_def demo_augment2)
  have l: "0 < length (streets demo_lookup)" "0 < length (streets demo_lookup2)"
    by (simp_all add: demo_lookup_def demo_lookup2_def)
  from scheme_classifier [of 0 demo_lookup demo_env] scheme_classifier [of 0 demo_lookup2 demo_env]
    b b2 l
  show ?thesis
    by (simp add: zigzag_rule_def)
qed

text \<open>
  C1 as the specification states it fails: \<open>1e21\<close> and 4 on the right, nothing on the left,
  are all even, so the rule gives \<open>zigzag\<close>; the code reads \<open>1e21\<close> as 1, counts one odd and
  one even number on the right, and assigns \<open>updown\<close>, the classifier alone and the run on a
  street with these two observations.
\<close>

theorem scheme_classifier_beyond_plain_digits:
  "zigzag_rule [\<lparr>housenumber = 10 ^ 21, dist_o = 5, parity = Some R\<rparr>,
                \<lparr>housenumber = 4, dist_o = 15, parity = Some R\<rparr>]
   \<and> scheme_of demo_env [\<lparr>housenumber = 10 ^ 21, dist_o = 5, parity = Some R\<rparr>,
                         \<lparr>housenumber = 4, dist_o = 15, parity = Some R\<rparr>] = updown
   \<and> buckets_of (augment demo_env demo_lookup3) ! 0
       = [\<lparr>housenumber = 10 ^ 21, dist_o = 5, parity = Some R\<rparr>,
          \<lparr>housenumber = 4, dist_o = 15, parity = Some R\<rparr>]
   \<and> scheme (streets_of (augment demo_env demo_lookup3) ! 0) = Some updown"
proof -
  have "zigzag_rule [\<lparr>housenumber = 10 ^ 21, dist_o = 5, parity = Some R\<rparr>,
                     \<lparr>housenumber = 4, dist_o = 15, parity = Some R\<rparr>]"
    by (simp add: zigzag_rule_def)
  moreover have "scheme_of demo_env [\<lparr>housenumber = 10 ^ 21, dist_o = 5, parity = Some R\<rparr>,
                         \<lparr>housenumber = 4, dist_o = 15, parity = Some R\<rparr>] = updown"
    by code_simp
  ultimately show ?thesis
    by (simp add: buckets_of_def streets_of_def demo_augment3)
qed

text \<open>
  Claim C2, as the code has it. A street whose bucket holds no observation is assigned
  \<open>zigzag\<close>: all counters are 0, so both tests of lines 137-138 hold. Walking its vertices
  pushes no row, provided the interpolator answers nothing for the empty track (as
  section 4.5 of the specification has it for fewer than two observations).
\<close>

theorem empty_bucket_scheme:
  assumes "si < length (streets lk)" and "buckets_of (augment env lk) ! si = []"
  shows "scheme (streets_of (augment env lk) ! si) = Some zigzag
         \<and> ((\<forall>q. lib_interpolate env [] q = None) \<longrightarrow>
              walk_street env (streets_of (augment env lk) ! si) (buckets_of (augment env lk) ! si) out
                = out)"
proof -
  have b: "sorted_buckets env lk ! si = []"
    using assms(2) by (simp add: buckets_of_augment)
  have s: "scheme (classified env lk ! si) = Some zigzag"
    using assms(1) b by (simp add: classified_nth with_scheme_def scheme_of_empty)
  show ?thesis
    using s b by (simp add: streets_of_augment buckets_of_augment walk_street_rows vertex_rows_empty_zigzag)
qed

text \<open>
  C2 on a run whose second street has two vertices and gets no observation: the street is
  \<open>zigzag\<close>, the walk reaches the second vertex, asks the interpolator there, and pushes no
  row.
\<close>

theorem empty_bucket_scheme_witness:
  "buckets_of (augment demo_env demo_lookup2) ! 1 = []
   \<and> coordinates (streets_of (augment demo_env demo_lookup2) ! 1) = [(0, 1), (20, 1)]
   \<and> scheme (streets_of (augment demo_env demo_lookup2) ! 1) = Some zigzag
   \<and> walk_street demo_env (streets_of (augment demo_env demo_lookup2) ! 1)
        (buckets_of (augment demo_env demo_lookup2) ! 1) [] = []"
proof -
  have l: "1 < length (streets demo_lookup2)"
    by (simp add: demo_lookup2_def)
  have b: "buckets_of (augment demo_env demo_lookup2) ! 1 = []"
    by (simp add: buckets_of_def demo_augment2)
  have c: "coordinates (streets_of (augment demo_env demo_lookup2) ! 1) = [(0, 1), (20, 1)]"
    by (simp add: streets_of_def demo_augment2)
  have i: "\<forall>q. lib_interpolate demo_env [] q = None"
    by (simp add: demo_env_def interpolate_def)
  show ?thesis
    using empty_bucket_scheme [OF l b, of "[]"] b c i by simp
qed

text \<open>
  C2 as the specification states it fails: the classifier on no observation does not
  assign \<open>updown\<close>.
\<close>

theorem empty_bucket_not_updown:
  "scheme_of demo_env [] = zigzag \<and> scheme_of demo_env [] \<noteq> updown"
  by (simp add: scheme_of_empty)

text \<open>
  Claim C3. For a track and a query distance \<open>q\<close> the interpolator answers nothing when the
  track has fewer than two observations, and nothing when no observation lies at or before
  \<open>q\<close> or none at or after it. When the track has two observations or more and both kinds
  exist, there are a largest observation \<open>lo\<close> at or before \<open>q\<close> and a smallest \<open>hi\<close> at or
  after it, and the answer is the housenumber of \<open>lo\<close> if the two distances are equal and
  \<open>h_lo + (h_hi - h_lo) * (q - d_lo) / (d_hi - d_lo)\<close> otherwise.
\<close>

theorem interpolate_rules:
  "(length track < 2 \<longrightarrow> interpolate track q = None)
   \<and> ((\<forall>x\<in>set track. \<not> dist_o x \<le> q) \<or> (\<forall>x\<in>set track. \<not> q \<le> dist_o x)
        \<longrightarrow> interpolate track q = None)
   \<and> (2 \<le> length track \<and> (\<exists>x\<in>set track. dist_o x \<le> q) \<and> (\<exists>x\<in>set track. q \<le> dist_o x)
        \<longrightarrow> (\<exists>lo hi. is_lower track q lo \<and> is_upper track q hi
               \<and> interpolate track q =
                   Some (if dist_o lo = dist_o hi then real_of_int (housenumber lo)
                         else real_of_int (housenumber lo)
                              + real_of_int (housenumber hi - housenumber lo) * (q - dist_o lo)
                                  / (dist_o hi - dist_o lo))))"
proof (intro conjI impI)
  show "interpolate track q = None" if "length track < 2"
    using that by (simp add: interpolate_def)
  show "interpolate track q = None"
    if "(\<forall>x\<in>set track. \<not> dist_o x \<le> q) \<or> (\<forall>x\<in>set track. \<not> q \<le> dist_o x)"
    using that lower_bracket_cases [of track q] upper_bracket_cases [of track q]
    by (auto simp: interpolate_def is_lower_def is_upper_def split: option.splits)
  show "\<exists>lo hi. is_lower track q lo \<and> is_upper track q hi
               \<and> interpolate track q =
                   Some (if dist_o lo = dist_o hi then real_of_int (housenumber lo)
                         else real_of_int (housenumber lo)
                              + real_of_int (housenumber hi - housenumber lo) * (q - dist_o lo)
                                  / (dist_o hi - dist_o lo))"
    if asm: "2 \<le> length track \<and> (\<exists>x\<in>set track. dist_o x \<le> q) \<and> (\<exists>x\<in>set track. q \<le> dist_o x)"
  proof -
    obtain lo where lo: "lower_bracket track q = Some lo" "is_lower track q lo"
      using asm lower_bracket_cases [of track q] by auto
    obtain hi where hi: "upper_bracket track q = Some hi" "is_upper track q hi"
      using asm upper_bracket_cases [of track q] by auto
    have "\<not> length track < 2" using asm by simp
    then show ?thesis
      using lo hi by (intro exI [of _ lo] exI [of _ hi]) (simp add: interpolate_def)
  qed
qed

text \<open>C3 on a track of one observation, on a query past the last observation, and on a
  query between two observations.\<close>

theorem interpolate_rules_witness:
  "interpolate [\<lparr>housenumber = 1, dist_o = 5, parity = Some L\<rparr>] 5 = None
   \<and> interpolate [\<lparr>housenumber = 1, dist_o = 5, parity = Some L\<rparr>,
                  \<lparr>housenumber = 4, dist_o = 15, parity = Some R\<rparr>] 20 = None
   \<and> interpolate [\<lparr>housenumber = 1, dist_o = 5, parity = Some L\<rparr>,
                  \<lparr>housenumber = 4, dist_o = 15, parity = Some R\<rparr>] 10 = Some (5 / 2)"
proof -
  let ?a = "\<lparr>housenumber = 1, dist_o = 5, parity = Some L\<rparr>"
  let ?b = "\<lparr>housenumber = 4, dist_o = 15, parity = Some R\<rparr>"
  have 1: "interpolate [?a] 5 = None"
    using interpolate_rules [of "[?a]" 5] by simp
  have 2: "interpolate [?a, ?b] 20 = None"
    using interpolate_rules [of "[?a, ?b]" 20] by simp
  from interpolate_rules [of "[?a, ?b]" 10]
  obtain lo hi where lo: "is_lower [?a, ?b] 10 lo" and hi: "is_upper [?a, ?b] 10 hi"
    and r: "interpolate [?a, ?b] 10 =
              Some (if dist_o lo = dist_o hi then real_of_int (housenumber lo)
                    else real_of_int (housenumber lo)
                         + real_of_int (housenumber hi - housenumber lo) * (10 - dist_o lo)
                             / (dist_o hi - dist_o lo))"
    by auto
  from lo have "lo = ?a" by (auto simp: is_lower_def)
  moreover from hi have "hi = ?b" by (auto simp: is_upper_def)
  ultimately have 3: "interpolate [?a, ?b] 10 = Some (5 / 2)"
    using r by simp
  from 1 2 3 show ?thesis by simp
qed

text \<open>
  Claim C4. The rows of a lookup are the rows of its matched records, in the order of the
  batch, followed by the vertex rows: street by street in the order of \<open>lookup.streets\<close>,
  within a street vertex by vertex from index 1 upwards, and at a vertex of a street that is
  not \<open>zigzag\<close> the row interpolated on the left side before the row interpolated on the
  right side.
\<close>

theorem emission_order:
  "rows_of (augment env lk) =
     List.map_filter (observed_row env (decoded env lk)) (batch lk)
     @ concat (map (\<lambda>si. concat (map (rows_at env (streets_of (augment env lk) ! si)
                                         (buckets_of (augment env lk) ! si))
                                    [1..<length (coordinates (streets_of (augment env lk) ! si))]))
                 [0..<length (streets lk)])
   \<and> (\<forall>street d i. scheme street \<noteq> Some zigzag \<longrightarrow>
         rows_at env street d i =
           push_vertex env street (coordinates street ! i)
             (lib_interpolate env (filter (\<lambda>x. parity x = Some L) d)
                (vertex_distance env (coordinates street) i))
           @ push_vertex env street (coordinates street ! i)
               (lib_interpolate env (filter (\<lambda>x. parity x = Some R) d)
                  (vertex_distance env (coordinates street) i)))"
  by (simp add: rows_of_augment streets_of_augment buckets_of_augment all_vertex_rows_def
        vertex_rows_def length_classified rows_at_def housenumbers_at_def)

text \<open>C4 on the example run (the batch holds the numbers 4, 12B, 1 and 7 in this order)
  and on a vertex of an \<open>updown\<close> street.\<close>

theorem emission_order_witness:
  "map (\<lambda>r. (row_id r, source r, row_housenumber r)) (rows_of (augment demo_env demo_lookup)) =
     [(''S1'', ''OA'', HnNumber 4), (''S1'', ''OA'', HnNumber 1), (''S2'', ''OA'', HnNumber 7),
      (''S1'', ''VERTEX'', HnFixed ''2.5'')]
   \<and> map row_housenumber (rows_at demo_env demo_updown demo_track 1) = [HnFixed ''2'', HnFixed ''9'']"
proof -
  have u: "scheme demo_updown \<noteq> Some zigzag"
    by (simp add: demo_updown_def)
  have e: "map (\<lambda>r. (row_id r, source r, row_housenumber r))
             (List.map_filter (observed_row demo_env (decoded demo_env demo_lookup)) (batch demo_lookup)
              @ concat (map (\<lambda>si. concat (map (rows_at demo_env (streets_of (augment demo_env demo_lookup) ! si)
                                                  (buckets_of (augment demo_env demo_lookup) ! si))
                                    [1..<length (coordinates (streets_of (augment demo_env demo_lookup) ! si))]))
                 [0..<length (streets demo_lookup)])) =
     [(''S1'', ''OA'', HnNumber 4), (''S1'', ''OA'', HnNumber 1), (''S2'', ''OA'', HnNumber 7),
      (''S1'', ''VERTEX'', HnFixed ''2.5'')]"
    by code_simp
  have f: "map row_housenumber
             (push_vertex demo_env demo_updown (coordinates demo_updown ! 1)
                (lib_interpolate demo_env (filter (\<lambda>x. parity x = Some L) demo_track)
                   (vertex_distance demo_env (coordinates demo_updown) 1))
              @ push_vertex demo_env demo_updown (coordinates demo_updown ! 1)
                  (lib_interpolate demo_env (filter (\<lambda>x. parity x = Some R) demo_track)
                     (vertex_distance demo_env (coordinates demo_updown) 1)))
           = [HnFixed ''2'', HnFixed ''9'']"
    by code_simp
  from emission_order [of demo_env demo_lookup] u e f show ?thesis
    by simp
qed

text \<open>
  Claim C5. A record whose housenumber does not parse is logged and skipped, and the run
  goes on: the callback changes nothing but the console, where it puts the diagnostic, and
  the loop goes on with the records after it. For the whole run, with the record anywhere
  in the batch: the run ends without an error; its console holds what the records before
  it log, then the diagnostic of the record, then what the records after it log; its rows
  are the rows of the records before it, then the rows of the records after it, then the
  vertex rows, so none is of the record; its buckets are the observations of the other
  records, sorted; rows and buckets are those of the run without the record.
\<close>

theorem unparseable_skipped:
  assumes "analyze_housenumber env (NUMBER it) = None"
  shows "process_item env strs st it = Inr (st\<lparr>console := console st @ [CouldNotParse (NUMBER it)]\<rparr>)
         \<and> batch_forEach env strs st (it # rest) =
             batch_forEach env strs (st\<lparr>console := console st @ [CouldNotParse (NUMBER it)]\<rparr>) rest
         \<and> rows_of (augment env (lk\<lparr>batch := xs @ it # ys\<rparr>)) = rows_of (augment env (lk\<lparr>batch := xs @ ys\<rparr>))
         \<and> buckets_of (augment env (lk\<lparr>batch := xs @ it # ys\<rparr>))
             = buckets_of (augment env (lk\<lparr>batch := xs @ ys\<rparr>))
         \<and> (\<exists>r. augment env (lk\<lparr>batch := xs @ it # ys\<rparr>) = Inr r)
         \<and> console_of (augment env (lk\<lparr>batch := xs @ it # ys\<rparr>))
             = concat (map (\<lambda>x. snd (item_outcome env (decoded env lk) x)) xs)
               @ [CouldNotParse (NUMBER it)]
               @ concat (map (\<lambda>x. snd (item_outcome env (decoded env lk) x)) ys)
         \<and> rows_of (augment env (lk\<lparr>batch := xs @ it # ys\<rparr>))
             = List.map_filter (observed_row env (decoded env lk)) xs
               @ List.map_filter (observed_row env (decoded env lk)) ys
               @ all_vertex_rows env (streets_of (augment env (lk\<lparr>batch := xs @ it # ys\<rparr>)))
                   (buckets_of (augment env (lk\<lparr>batch := xs @ it # ys\<rparr>)))
         \<and> buckets_of (augment env (lk\<lparr>batch := xs @ it # ys\<rparr>))
             = sort_distances (foldl add_observation (replicate (length (streets lk)) [])
                 (List.map_filter (fst \<circ> item_outcome env (decoded env lk)) xs
                  @ List.map_filter (fst \<circ> item_outcome env (decoded env lk)) ys))"
proof -
  let ?lk = "lk\<lparr>batch := xs @ it # ys\<rparr>"
  have p: "process_item env strs st it = Inr (st\<lparr>console := console st @ [CouldNotParse (NUMBER it)]\<rparr>)"
    using assms by (simp add: process_item_def)
  have d: "decoded env ?lk = decoded env lk"
    by (simp add: decoded_def)
  have r: "rows_of (augment env ?lk) = rows_of (augment env (lk\<lparr>batch := xs @ ys\<rparr>))"
    by (rule augment_skip [OF assms])
  have b: "buckets_of (augment env ?lk) = buckets_of (augment env (lk\<lparr>batch := xs @ ys\<rparr>))"
    by (rule augment_skip [OF assms])
  have c: "console_of (augment env ?lk)
             = concat (map (\<lambda>x. snd (item_outcome env (decoded env lk) x)) xs)
               @ [CouldNotParse (NUMBER it)]
               @ concat (map (\<lambda>x. snd (item_outcome env (decoded env lk) x)) ys)"
    by (simp add: console_of_augment d item_outcome_unparseable [OF assms])
  have a: "rows_of (augment env ?lk)
             = List.map_filter (observed_row env (decoded env lk)) xs
               @ List.map_filter (observed_row env (decoded env lk)) ys
               @ all_vertex_rows env (streets_of (augment env ?lk)) (buckets_of (augment env ?lk))"
    by (simp add: rows_of_augment streets_of_augment buckets_of_augment d map_filter_append
          observed_row_unparseable [OF assms])
  have k: "buckets_of (augment env ?lk)
             = sort_distances (foldl add_observation (replicate (length (streets lk)) [])
                 (List.map_filter (fst \<circ> item_outcome env (decoded env lk)) xs
                  @ List.map_filter (fst \<circ> item_outcome env (decoded env lk)) ys))"
    unfolding buckets_of_augment_batch
    by (simp add: d map_filter_append item_outcome_unparseable [OF assms])
  have e: "\<exists>r. augment env ?lk = Inr r"
    by (simp add: augment_result)
  from p r b e c a k show ?thesis
    by simp
qed

text \<open>
  C5 on the example run, whose batch holds the numbers 4, 12B, 1 and 7 in this order: the
  console of the run, with the diagnostic of 12B in the second place, and the rows of the
  run, with the rows of 4, 1 and 7 and none of 12B.
\<close>

theorem unparseable_skipped_witness:
  "analyze_housenumber demo_env (NUMBER \<lparr>NUMBER = ''12B'', LON = ''2'', LAT = ''0.5''\<rparr>) = None
   \<and> process_item demo_env demo_streets demo_state \<lparr>NUMBER = ''12B'', LON = ''2'', LAT = ''0.5''\<rparr>
       = Inr \<lparr>distances = [[], [], []], pushed = [], console = [CouldNotParse ''12B'']\<rparr>
   \<and> console_of (augment demo_env demo_lookup)
       = [UnableToProject (demo_streets ! 2) (15, - (1 / 2)),
          CouldNotParse ''12B'',
          UnableToProject (demo_streets ! 2) (5, 1 / 2),
          UnableToProject (demo_streets ! 2) (2, 3 / 4)]
   \<and> map (\<lambda>r. (row_id r, source r, row_housenumber r)) (rows_of (augment demo_env demo_lookup))
       = [(''S1'', ''OA'', HnNumber 4), (''S1'', ''OA'', HnNumber 1), (''S2'', ''OA'', HnNumber 7),
          (''S1'', ''VERTEX'', HnFixed ''2.5'')]"
proof -
  let ?it = "\<lparr>NUMBER = ''12B'', LON = ''2'', LAT = ''0.5''\<rparr>"
  let ?xs = "[\<lparr>NUMBER = ''4'', LON = ''15'', LAT = ''-0.5''\<rparr>]"
  let ?ys = "[\<lparr>NUMBER = ''1'', LON = ''5'', LAT = ''0.5''\<rparr>, \<lparr>NUMBER = ''7'', LON = ''2'', LAT = ''0.75''\<rparr>]"
  have h: "analyze_housenumber demo_env (NUMBER ?it) = None"
    by (simp add: demo_env_def)
  have lk: "demo_lookup\<lparr>batch := ?xs @ ?it # ?ys\<rparr> = demo_lookup"
    by (simp add: demo_lookup_def)
  have c: "concat (map (\<lambda>x. snd (item_outcome demo_env (decoded demo_env demo_lookup) x)) ?xs)
             @ [CouldNotParse (NUMBER ?it)]
             @ concat (map (\<lambda>x. snd (item_outcome demo_env (decoded demo_env demo_lookup) x)) ?ys)
           = [UnableToProject (demo_streets ! 2) (15, - (1 / 2)),
              CouldNotParse ''12B'',
              UnableToProject (demo_streets ! 2) (5, 1 / 2),
              UnableToProject (demo_streets ! 2) (2, 3 / 4)]"
    by code_simp
  have r: "map (\<lambda>r. (row_id r, source r, row_housenumber r))
             (List.map_filter (observed_row demo_env (decoded demo_env demo_lookup)) ?xs
               @ List.map_filter (observed_row demo_env (decoded demo_env demo_lookup)) ?ys
               @ all_vertex_rows demo_env (streets_of (augment demo_env demo_lookup))
                   (buckets_of (augment demo_env demo_lookup)))
           = [(''S1'', ''OA'', HnNumber 4), (''S1'', ''OA'', HnNumber 1), (''S2'', ''OA'', HnNumber 7),
              (''S1'', ''VERTEX'', HnFixed ''2.5'')]"
    by code_simp
  note t = unparseable_skipped [OF h, where strs = demo_streets and st = demo_state and rest = "[]"
      and lk = demo_lookup and xs = ?xs and ys = ?ys]
  have p: "process_item demo_env demo_streets demo_state ?it
             = Inr \<lparr>distances = [[], [], []], pushed = [], console = [CouldNotParse ''12B'']\<rparr>"
    using t [THEN conjunct1] by (simp add: demo_state_def)
  have c': "console_of (augment demo_env demo_lookup)
             = concat (map (\<lambda>x. snd (item_outcome demo_env (decoded demo_env demo_lookup) x)) ?xs)
               @ [CouldNotParse (NUMBER ?it)]
               @ concat (map (\<lambda>x. snd (item_outcome demo_env (decoded demo_env demo_lookup) x)) ?ys)"
    using t [THEN conjunct2, THEN conjunct2, THEN conjunct2, THEN conjunct2, THEN conjunct2,
             THEN conjunct1]
    unfolding lk .
  have r': "rows_of (augment demo_env demo_lookup)
             = List.map_filter (observed_row demo_env (decoded demo_env demo_lookup)) ?xs
               @ List.map_filter (observed_row demo_env (decoded demo_env demo_lookup)) ?ys
               @ all_vertex_rows demo_env (streets_of (augment demo_env demo_lookup))
                   (buckets_of (augment demo_env demo_lookup))"
    using t [THEN conjunct2, THEN conjunct2, THEN conjunct2, THEN conjunct2, THEN conjunct2,
             THEN conjunct2, THEN conjunct1]
    unfolding lk .
  show ?thesis
    unfolding c' r' c r using h p by simp
qed

text \<open>
  Claim C6. For a point and a list of streets, the matcher ends on the candidate with the
  smallest projection distance, the one of lowest index among equals: if a smallest
  candidate exists it is what \<open>nearest\<close> holds, and one exists as soon as some street has a
  valid projection. If no street has a valid projection, \<open>nearest\<close> is left as initialised
  and the callback logs each failed projection and the missing match, and pushes nothing.
\<close>

theorem nearest_street_selected:
  "(\<forall>k pr. smallest_projection env strs pt k pr \<longrightarrow>
       fst (find_nearest env strs pt con) =
         \<lparr>nearest_projection = pr, nearest_street = Some (strs ! k), nearest_index = Some k\<rparr>)
   \<and> ((\<exists>j pj. candidate env strs pt j pj) \<longrightarrow> (\<exists>k pr. smallest_projection env strs pt k pr))
   \<and> ((\<forall>j pj. \<not> candidate env strs pt j pj) \<longrightarrow>
        fst (find_nearest env strs pt con) = nearest_init
        \<and> (\<forall>st (it::item) hn. analyze_housenumber env (NUMBER it) = Some hn
               \<and> pt = (parseFloat env (LON it), parseFloat env (LAT it)) \<longrightarrow>
             process_item env strs st it =
               Inr (st\<lparr>console := console st @ map (\<lambda>s. UnableToProject s pt) strs
                                   @ [UnableToFindNearest strs it]\<rparr>)))"
proof (intro conjI allI impI)
  fix k pr assume s: "smallest_projection env strs pt k pr"
  from find_nearest_cases [of env strs pt con]
  show "fst (find_nearest env strs pt con) =
          \<lparr>nearest_projection = pr, nearest_street = Some (strs ! k), nearest_index = Some k\<rparr>"
  proof (elim disjE exE conjE)
    fix k' pr'
    assume f: "fst (find_nearest env strs pt con) =
                 \<lparr>nearest_projection = pr', nearest_street = Some (strs ! k'), nearest_index = Some k'\<rparr>"
      and s': "smallest_projection env strs pt k' pr'"
    from smallest_projection_unique [OF s s'] f show ?thesis by simp
  next
    assume "\<forall>j pj. \<not> candidate env strs pt j pj"
    with s show ?thesis by (simp add: smallest_projection_def)
  qed
next
  assume "\<exists>j pj. candidate env strs pt j pj"
  with find_nearest_cases [of env strs pt con]
  show "\<exists>k pr. smallest_projection env strs pt k pr" by blast
next
  assume n: "\<forall>j pj. \<not> candidate env strs pt j pj"
  with find_nearest_cases [of env strs pt con]
  show "fst (find_nearest env strs pt con) = nearest_init"
    by (auto simp: smallest_projection_def)
next
  fix st and it :: item and hn
  assume n: "\<forall>j pj. \<not> candidate env strs pt j pj"
    and a: "analyze_housenumber env (NUMBER it) = Some hn
            \<and> pt = (parseFloat env (LON it), parseFloat env (LAT it))"
  have "process_item env strs st it =
          Inr (st\<lparr>console := console st
                     @ map (\<lambda>s. UnableToProject s (parseFloat env (LON it), parseFloat env (LAT it))) strs
                     @ [UnableToFindNearest strs it]\<rparr>)"
  proof (rule process_item_unmatched)
    show "analyze_housenumber env (NUMBER it) = Some hn" using a by simp
    show "\<not> candidate env strs (parseFloat env (LON it), parseFloat env (LAT it)) j pj" for j pj
      using a n by simp
  qed
  with a show "process_item env strs st it =
          Inr (st\<lparr>console := console st @ map (\<lambda>s. UnableToProject s pt) strs
                              @ [UnableToFindNearest strs it]\<rparr>)"
    by simp
qed

text \<open>C6 on the example: a point a quarter below the second street and three quarters
  above the first; and the same point with the street of a single vertex as the only
  street.\<close>

theorem nearest_street_selected_witness:
  "smallest_projection demo_env demo_streets (2, 3 / 4) 1
     \<lparr>edge = Some ((0, 1), (20, 1)), point = Some (2, 1), dist_p = Fin (1 / 4)\<rparr>
   \<and> nearest_index (fst (find_nearest demo_env demo_streets (2, 3 / 4) [])) = Some 1
   \<and> nearest_street (fst (find_nearest demo_env demo_streets (2, 3 / 4) [])) = Some (demo_streets ! 1)
   \<and> nearest_street (fst (find_nearest demo_env [demo_streets ! 2] (2, 3 / 4) [])) = None
   \<and> process_item demo_env [demo_streets ! 2] demo_state \<lparr>NUMBER = ''7'', LON = ''2'', LAT = ''0.75''\<rparr>
       = Inr \<lparr>distances = [[], [], []], pushed = [],
              console = [UnableToProject (demo_streets ! 2) (2, 3 / 4),
                         UnableToFindNearest [demo_streets ! 2]
                           \<lparr>NUMBER = ''7'', LON = ''2'', LAT = ''0.75''\<rparr>]\<rparr>"
proof -
  let ?it = "\<lparr>NUMBER = ''7'', LON = ''2'', LAT = ''0.75''\<rparr>"
  have a: "analyze_housenumber demo_env (NUMBER ?it) = Some 7"
    by (simp add: demo_env_def)
  have p: "(2, 3 / 4) = (parseFloat demo_env (LON ?it), parseFloat demo_env (LAT ?it))"
    by (simp add: demo_env_def demo_decimal_def)
  have n: "\<forall>j pj. \<not> candidate demo_env [demo_streets ! 2] (2, 3 / 4) j pj"
    by (simp add: demo_no_candidate)
  from nearest_street_selected [of demo_env demo_streets "(2, 3 / 4)" "[]"] demo_smallest
  have 1: "fst (find_nearest demo_env demo_streets (2, 3 / 4) []) =
             \<lparr>nearest_projection = \<lparr>edge = Some ((0, 1), (20, 1)), point = Some (2, 1), dist_p = Fin (1 / 4)\<rparr>,
              nearest_street = Some (demo_streets ! 1), nearest_index = Some 1\<rparr>"
    by blast
  from nearest_street_selected [of demo_env "[demo_streets ! 2]" "(2, 3 / 4)" "[]"] n
  have 2: "fst (find_nearest demo_env [demo_streets ! 2] (2, 3 / 4) []) = nearest_init"
    and 3: "process_item demo_env [demo_streets ! 2] demo_state ?it =
              Inr (demo_state\<lparr>console := console demo_state
                       @ map (\<lambda>s. UnableToProject s (2, 3 / 4)) [demo_streets ! 2]
                       @ [UnableToFindNearest [demo_streets ! 2] ?it]\<rparr>)"
    using a p by blast+
  from 1 2 3 demo_smallest show ?thesis
    by (simp add: nearest_init_def demo_state_def)
qed

text \<open>
  Claim C7, as the code has it. The \<open>$source\<close> of a row is the text \<open>OA\<close> when it comes
  from an address record and the text \<open>VERTEX\<close> when it is interpolated at a vertex; the
  rows of a run are rows of the first kind followed by rows of the second.
\<close>

theorem source_tags:
  "source (oa_row env street hn pt par pp) = ''OA''
   \<and> source (vertex_row env street vertex num) = ''VERTEX''
   \<and> (\<exists>obs vtx. rows_of (augment env lk) = obs @ vtx
         \<and> obs = List.map_filter (observed_row env (decoded env lk)) (batch lk)
         \<and> vtx = all_vertex_rows env (streets_of (augment env lk)) (buckets_of (augment env lk))
         \<and> (\<forall>r\<in>set obs. source r = ''OA'')
         \<and> (\<forall>r\<in>set vtx. source r = ''VERTEX''))"
proof -
  have "\<forall>r\<in>set (List.map_filter (observed_row env (decoded env lk)) (batch lk)). source r = ''OA''"
    by (auto dest!: map_filter_set dest: observed_row_source)
  moreover have "\<forall>r\<in>set (all_vertex_rows env (classified env lk) (sorted_buckets env lk)).
                   source r = ''VERTEX''"
    by (auto dest: all_vertex_rows_source)
  ultimately show ?thesis
    by (simp add: rows_of_augment streets_of_augment buckets_of_augment oa_row_def vertex_row_def)
qed

text \<open>C7 on the example run.\<close>

theorem source_tags_witness:
  "list_all (\<lambda>r. source r = ''OA'' \<or> source r = ''VERTEX'') (rows_of (augment demo_env demo_lookup))"
  using source_tags [of demo_env _ _ _ _ _ _ _ demo_lookup]
  by (auto simp: list_all_iff)

text \<open>C7 as the specification states it fails: no row of the example run carries \<open>OBS\<close> or
  \<open>VTX\<close>.\<close>

theorem source_tags_not_obs_vtx:
  "map source (rows_of (augment demo_env demo_lookup)) = [''OA'', ''OA'', ''OA'', ''VERTEX'']
   \<and> ''OA'' \<noteq> ''OBS'' \<and> ''VERTEX'' \<noteq> ''VTX''"
  by (simp add: rows_of_def demo_augment)

text \<open>
  Claim C8. The callback on the vertices changes nothing at index 0, and the rows a street
  adds are those of its vertices from index 1 to the last, in this order; a street of a
  single vertex adds none.
\<close>

theorem first_vertex_skipped:
  "vertex_step env street d acc (0, vertex) = acc
   \<and> walk_street env street d out =
       out @ concat (map (rows_at env street d) [1..<length (coordinates street)])
   \<and> (length (coordinates street) \<le> 1 \<longrightarrow> walk_street env street d out = out)"
proof -
  have "vertex_step env street d acc (0, vertex) = acc"
    by (cases acc) simp
  moreover have w: "walk_street env street d out =
      out @ concat (map (rows_at env street d) [1..<length (coordinates street)])"
    by (simp add: walk_street_rows vertex_rows_def)
  moreover have "walk_street env street d out = out" if "length (coordinates street) \<le> 1"
    using that w by simp
  ultimately show ?thesis by simp
qed

text \<open>C8 on an \<open>updown\<close> street of three vertices: two rows at the second vertex, none at
  the first (and none at the third, which lies past the last observation); and on the
  street of a single vertex.\<close>

theorem first_vertex_skipped_witness:
  "map (\<lambda>r. (proj_lon r, proj_lat r, row_housenumber r)) (walk_street demo_env demo_updown demo_track [])
     = [(''10'', ''0'', HnFixed ''2''), (''10'', ''0'', HnFixed ''9'')]
   \<and> walk_street demo_env (demo_streets ! 2) demo_track [] = []"
proof -
  have "map (\<lambda>r. (proj_lon r, proj_lat r, row_housenumber r))
          ([] @ concat (map (rows_at demo_env demo_updown demo_track) [1..<length (coordinates demo_updown)]))
        = [(''10'', ''0'', HnFixed ''2''), (''10'', ''0'', HnFixed ''9'')]"
    by code_simp
  moreover have "length (coordinates (demo_streets ! 2)) \<le> 1"
    by (simp add: demo_streets_def)
  ultimately show ?thesis
    using first_vertex_skipped [of demo_env demo_updown demo_track _ _ "[]"]
          first_vertex_skipped [of demo_env "demo_streets ! 2" demo_track _ _ "[]"]
    by simp
qed

text \<open>
  Claim C9, as the code has it. After sorting, every bucket is a rearrangement of what it
  held, and each observation's distance is at most that of the next one; the buckets of a
  run are the sorted buckets of the state the pass over the batch ends in, so each of them
  is in the order of the distances. Nothing is said of the order of two observations at
  the same distance: the comparator answers \<open>-1\<close> for them whichever comes first
  (\<open>compare_dist_tie\<close>), so their order is the engine's choice.
\<close>

theorem sort_distances_ascending:
  "length (sort_distances ds) = length ds
   \<and> (\<forall>s<length ds. ascending (sort_distances ds ! s) \<and> mset (sort_distances ds ! s) = mset (ds ! s))
   \<and> (\<exists>st1. batch_forEach env (decoded env lk) (initial_state lk) (batch lk) = Inr st1
          \<and> buckets_of (augment env lk) = sort_distances (distances st1))
   \<and> (\<forall>s<length (streets lk). ascending (buckets_of (augment env lk) ! s))"
proof (intro conjI allI impI)
  show "length (sort_distances ds) = length ds"
    by (rule length_sort_distances)
  show "ascending (sort_distances ds ! s)" if "s < length ds" for s
    using that by (simp add: sort_distances_def sort_ahead_ascending)
  show "mset (sort_distances ds ! s) = mset (ds ! s)" if "s < length ds" for s
    using that by (simp add: sort_distances_def sort_ahead_mset)
  show "\<exists>st1. batch_forEach env (decoded env lk) (initial_state lk) (batch lk) = Inr st1
          \<and> buckets_of (augment env lk) = sort_distances (distances st1)"
    by (simp add: batch_forEach_initial buckets_of_augment sorted_buckets_def)
  show "ascending (buckets_of (augment env lk) ! s)" if "s < length (streets lk)" for s
  proof -
    have "s < length (distances (after_batch env lk))"
      using that by (simp add: after_batch_def foldl_apply_outcome_length)
    then show ?thesis
      by (simp add: buckets_of_augment sorted_buckets_def sort_distances_def sort_ahead_ascending)
  qed
qed

text \<open>
  C9 on a bucket of four observations, and on the first street of the example run, where
  the batch has the number 4 at distance 15 before the number 1 at distance 5.
\<close>

theorem sort_distances_ascending_witness:
  "sort_distances [demo_track] ! 0
     = [\<lparr>housenumber = 10, dist_o = 5, parity = Some R\<rparr>,
        \<lparr>housenumber = 1, dist_o = 5, parity = Some L\<rparr>,
        \<lparr>housenumber = 8, dist_o = 15, parity = Some R\<rparr>,
        \<lparr>housenumber = 3, dist_o = 15, parity = Some L\<rparr>]
   \<and> ascending (sort_distances [demo_track] ! 0)
   \<and> mset (sort_distances [demo_track] ! 0) = mset demo_track
   \<and> buckets_of (augment demo_env demo_lookup) ! 0
       = [\<lparr>housenumber = 1, dist_o = 5, parity = Some L\<rparr>,
          \<lparr>housenumber = 4, dist_o = 15, parity = Some R\<rparr>]
   \<and> ascending (buckets_of (augment demo_env demo_lookup) ! 0)"
proof -
  have e: "sort_distances [demo_track] ! 0
     = [\<lparr>housenumber = 10, dist_o = 5, parity = Some R\<rparr>,
        \<lparr>housenumber = 1, dist_o = 5, parity = Some L\<rparr>,
        \<lparr>housenumber = 8, dist_o = 15, parity = Some R\<rparr>,
        \<lparr>housenumber = 3, dist_o = 15, parity = Some L\<rparr>]"
    by (simp add: sort_distances_def sort_ahead_def demo_track_def compare_dist_def)
  have b: "buckets_of (augment demo_env demo_lookup) ! 0
       = [\<lparr>housenumber = 1, dist_o = 5, parity = Some L\<rparr>,
          \<lparr>housenumber = 4, dist_o = 15, parity = Some R\<rparr>]"
    by (simp add: buckets_of_def demo_augment)
  have l: "0 < length [demo_track]" "0 < length (streets demo_lookup)"
    by (simp_all add: demo_lookup_def)
  from sort_distances_ascending [of "[demo_track]" demo_env demo_lookup] l
  have "ascending (sort_distances [demo_track] ! 0)"
    and "mset (sort_distances [demo_track] ! 0) = mset ([demo_track] ! 0)"
    and "ascending (buckets_of (augment demo_env demo_lookup) ! 0)"
    by blast+
  with e b show ?thesis by simp
qed

text \<open>
  C9 as the specification states it fails: the sort does not keep two observations at the
  same distance in the order they came in. The comparator ranks each of the two before the
  other, and the second comes out first.
\<close>

theorem ties_not_kept:
  "sort_distances
      [[\<lparr>housenumber = 1, dist_o = 5, parity = Some L\<rparr>,
        \<lparr>housenumber = 2, dist_o = 5, parity = Some L\<rparr>]]
    = [[\<lparr>housenumber = 2, dist_o = 5, parity = Some L\<rparr>,
        \<lparr>housenumber = 1, dist_o = 5, parity = Some L\<rparr>]]
   \<and> compare_dist \<lparr>housenumber = 1, dist_o = 5, parity = Some L\<rparr>
                   \<lparr>housenumber = 2, dist_o = 5, parity = Some L\<rparr> = - 1
   \<and> compare_dist \<lparr>housenumber = 2, dist_o = 5, parity = Some L\<rparr>
                   \<lparr>housenumber = 1, dist_o = 5, parity = Some L\<rparr> = - 1"
  by (simp add: sort_distances_def sort_ahead_def compare_dist_def)

text \<open>
  Claim C10. At a vertex of index above 0 the rows pushed are those of the interpolation
  results, one result after the other; a result that is \<open>null\<close> or the number 0 pushes
  nothing, and any other number pushes one row.
\<close>

theorem falsy_interpolation_skipped:
  "push_vertex env street vertex None = []
   \<and> push_vertex env street vertex (Some 0) = []
   \<and> (\<forall>n. n \<noteq> 0 \<longrightarrow> push_vertex env street vertex (Some n) = [vertex_row env street vertex n])
   \<and> (0 < i \<longrightarrow>
        (\<exists>vd. vertex_step env street d (vertexDistance, out) (i, vertex) =
                 (vd, out @ concat (map (push_vertex env street vertex)
                                      (housenumbers_at env street d vd)))))"
  by (simp add: push_vertex_def Let_def)

text \<open>C10 on the results 0 and 5, and at the second vertex of an \<open>updown\<close> street.\<close>

theorem falsy_interpolation_skipped_witness:
  "push_vertex demo_env demo_updown (10, 0) (Some 0) = []
   \<and> map row_housenumber (push_vertex demo_env demo_updown (10, 0) (Some 5)) = [HnFixed ''5'']
   \<and> snd (vertex_step demo_env demo_updown demo_track (0, []) (1, (10, 0)))
       = concat (map (push_vertex demo_env demo_updown (10, 0))
                   (housenumbers_at demo_env demo_updown demo_track
                      (fst (vertex_step demo_env demo_updown demo_track (0, []) (1, (10, 0))))))"
proof -
  have "map row_housenumber [vertex_row demo_env demo_updown (10, 0) 5] = [HnFixed ''5'']"
    by code_simp
  moreover have "(0::nat) < 1" by simp
  ultimately show ?thesis
    using falsy_interpolation_skipped [of demo_env demo_updown "(10, 0)" 1 demo_track 0 "[]"]
    by auto
qed

section \<open>More about the counters\<close>

text \<open>
  The counters of the classifier, by what they hold, on observations whose numbers are
  below \<open>1e21\<close> in magnitude: for each side, \<open>total\<close> is the number of counted observations,
  the counter named \<open>even\<close> is the number of those with an odd housenumber and the counter
  named \<open>odd\<close> the number of those with an even one.
\<close>

theorem counter_labels:
  assumes "\<forall>cur\<in>set d. parity cur \<noteq> None \<longrightarrow> \<bar>housenumber cur\<bar> < 10 ^ 21"
  shows "even_n (ord_get (foldl (enumerate_parity env) ord_init d) p)
     = length (filter (\<lambda>cur. counted p cur \<and> odd (housenumber cur)) d)
   \<and> odd_n (ord_get (foldl (enumerate_parity env) ord_init d) p)
       = length (filter (\<lambda>cur. counted p cur \<and> even (housenumber cur)) d)
   \<and> total (ord_get (foldl (enumerate_parity env) ord_init d) p) = length (filter (counted p) d)"
proof -
  have z: "odd_n (ord_get ord_init p) = 0" "even_n (ord_get ord_init p) = 0" "total (ord_get ord_init p) = 0"
    by (cases p; simp add: ord_get_def ord_init_def)+
  have "\<forall>cur\<in>set d. parity cur \<noteq> None \<longrightarrow> plain_digits cur"
    using assms by (simp add: plain_digits_def)
  from enumerate_parity_counts [OF this, of env ord_init p] z show ?thesis
    by simp
qed

text \<open>On the example track the right side holds the numbers 10 and 8.\<close>

theorem counter_labels_witness:
  "odd_n (ord_get (foldl (enumerate_parity demo_env) ord_init demo_track) R) = 2
   \<and> even_n (ord_get (foldl (enumerate_parity demo_env) ord_init demo_track) R) = 0
   \<and> total (ord_get (foldl (enumerate_parity demo_env) ord_init demo_track) R) = 2"
proof -
  have "\<forall>cur\<in>set demo_track. parity cur \<noteq> None \<longrightarrow> \<bar>housenumber cur\<bar> < 10 ^ 21"
    by (simp add: demo_track_def)
  from counter_labels [OF this, of demo_env R] show ?thesis
    by (simp add: demo_track_def counted_def)
qed

end
